theory Spec2Isabelle
  imports Main "HOL-Library.AList" "HOL-Library.Word"
begin

section \<open>Go values shared by all packages\<close>

text \<open>
  A Go \<open>string\<close> is a sequence of bytes, which is what \<^typ>\<open>string\<close> is here.
  Errors are values. \<open>Errorf msg\<close> is the error built by \<open>fmt.Errorf\<close> with the
  formatted message \<open>msg\<close>; \<open>Panic msg\<close> is an explicit \<open>panic(msg)\<close> of the source;
  \<open>RuntimePanic\<close> is a panic raised by the Go runtime (a slice expression out of
  range, a failed single-value type assertion, a nil dereference). The last two are the
  errors of \<open>MakeType\<close>, whose messages the given sources do not show: the value does not
  have the type the descriptor asks for, and the descriptor names no type.

  Go's \<open>int\<close> is \<^typ>\<open>int\<close>: the only arithmetic of the sources is on the lines and
  columns of tokens and the lengths of their texts.
\<close>

datatype error = Errorf string | Panic string | RuntimePanic
  | TypeMismatch string | UnknownType string

text \<open>\<open>strings.HasPrefix\<close> and \<open>strings.HasSuffix\<close>, as the standard library defines them.\<close>

definition HasPrefix :: "string \<Rightarrow> string \<Rightarrow> bool" where
  "HasPrefix s pre = (length pre \<le> length s \<and> take (length pre) s = pre)"

definition HasSuffix :: "string \<Rightarrow> string \<Rightarrow> bool" where
  "HasSuffix s suf = (length suf \<le> length s \<and> drop (length s - length suf) s = suf)"

text \<open>
  The slice expression \<open>s[lo:hi]\<close>. Go panics unless \<open>0 \<le> lo \<le> hi \<le> len(s)\<close>; the
  indices are of type \<open>int\<close> and \<open>len(s) - 3\<close> may well be negative.
\<close>

definition slice :: "string \<Rightarrow> int \<Rightarrow> int \<Rightarrow> error + string" where
  "slice s lo hi =
     (if 0 \<le> lo \<and> lo \<le> hi \<and> hi \<le> int (length s)
      then Inr (take (nat hi - nat lo) (drop (nat lo) s))
      else Inl RuntimePanic)"

text \<open>
  Formatting an \<open>error\<close> with \<open>%v\<close> prints its message. Only values built by
  \<open>fmt.Errorf\<close> are ever formatted; a panic is not an \<open>error\<close> value of the program.
\<close>

fun Error :: "error \<Rightarrow> string" where
  "Error (Errorf msg) = msg"
| "Error (Panic msg) = msg"
| "Error RuntimePanic = ''runtime error''"
| "Error (TypeMismatch typ) = ''type mismatch: '' @ typ"
| "Error (UnknownType typ) = ''unknown type: '' @ typ"

text \<open>\<open>strings.Join\<close>.\<close>

fun Join :: "string list \<Rightarrow> string \<Rightarrow> string" where
  "Join [] sep = []"
| "Join [x] sep = x"
| "Join (x # y # zs) sep = x @ sep @ Join (y # zs) sep"

text \<open>
  The character class \<open>\s\<close> of Go's \<open>regexp\<close> package is \<open>[\t\n\f\r ]\<close>, and
  \<open>regexp.MustCompile(`\s+`).ReplaceAllString(str, " ")\<close> replaces every maximal run of
  such bytes by one space.
\<close>

definition reSpace :: "char \<Rightarrow> bool" where
  "reSpace c = (c = CHR 0x09 \<or> c = CHR 0x0A \<or> c = CHR 0x0C \<or> c = CHR 0x0D \<or> c = CHR 0x20)"

function ReplaceAllSpaces :: "string \<Rightarrow> string" where
  "ReplaceAllSpaces [] = []"
| "ReplaceAllSpaces (c # cs) =
     (if reSpace c then CHR 0x20 # ReplaceAllSpaces (dropWhile reSpace cs)
      else c # ReplaceAllSpaces cs)"
  by pat_completeness auto
termination
  by (relation "measure length") (auto simp: length_dropWhile_le less_Suc_eq_le)

text \<open>
  \<open>strings.TrimSpace\<close> removes leading and trailing white space as Unicode defines it
  (\<open>unicode.IsSpace\<close>). On the bytes of a string these are the UTF-8 encodings below:
  the six ASCII characters, U+0085, U+00A0, U+1680, U+2000 to U+200A, U+2028, U+2029,
  U+202F, U+205F and U+3000. No encoding in the table is a prefix or a suffix of another.
\<close>

definition unicodeSpaces :: "string list" where
  "unicodeSpaces =
     [[CHR 0x09], [CHR 0x0A], [CHR 0x0B], [CHR 0x0C], [CHR 0x0D], [CHR 0x20],
      [CHR 0xC2, CHR 0x85], [CHR 0xC2, CHR 0xA0], [CHR 0xE1, CHR 0x9A, CHR 0x80],
      [CHR 0xE2, CHR 0x80, CHR 0x80], [CHR 0xE2, CHR 0x80, CHR 0x81],
      [CHR 0xE2, CHR 0x80, CHR 0x82], [CHR 0xE2, CHR 0x80, CHR 0x83],
      [CHR 0xE2, CHR 0x80, CHR 0x84], [CHR 0xE2, CHR 0x80, CHR 0x85],
      [CHR 0xE2, CHR 0x80, CHR 0x86], [CHR 0xE2, CHR 0x80, CHR 0x87],
      [CHR 0xE2, CHR 0x80, CHR 0x88], [CHR 0xE2, CHR 0x80, CHR 0x89],
      [CHR 0xE2, CHR 0x80, CHR 0x8A], [CHR 0xE2, CHR 0x80, CHR 0xA8],
      [CHR 0xE2, CHR 0x80, CHR 0xA9], [CHR 0xE2, CHR 0x80, CHR 0xAF],
      [CHR 0xE2, CHR 0x81, CHR 0x9F], [CHR 0xE3, CHR 0x80, CHR 0x80]]"

definition leadingSpace :: "string \<Rightarrow> nat" where
  "leadingSpace s =
     (case filter (HasPrefix s) unicodeSpaces of [] \<Rightarrow> 0 | w # _ \<Rightarrow> length w)"

definition trailingSpace :: "string \<Rightarrow> nat" where
  "trailingSpace s =
     (case filter (HasSuffix s) unicodeSpaces of [] \<Rightarrow> 0 | w # _ \<Rightarrow> length w)"

lemma leadingSpace_le: "leadingSpace s \<le> length s"
proof (cases "filter (HasPrefix s) unicodeSpaces")
  case Nil
  then show ?thesis by (simp add: leadingSpace_def)
next
  case (Cons w ws)
  then have "w \<in> set (filter (HasPrefix s) unicodeSpaces)" by simp
  then have "length w \<le> length s" by (simp add: HasPrefix_def)
  with Cons show ?thesis by (simp add: leadingSpace_def)
qed

lemma trailingSpace_le: "trailingSpace s \<le> length s"
proof (cases "filter (HasSuffix s) unicodeSpaces")
  case Nil
  then show ?thesis by (simp add: trailingSpace_def)
next
  case (Cons w ws)
  then have "w \<in> set (filter (HasSuffix s) unicodeSpaces)" by simp
  then have "length w \<le> length s" by (simp add: HasSuffix_def)
  with Cons show ?thesis by (simp add: trailingSpace_def)
qed

function TrimLeft :: "string \<Rightarrow> string" where
  "TrimLeft s = (if leadingSpace s = 0 then s else TrimLeft (drop (leadingSpace s) s))"
  by pat_completeness auto
termination
proof (relation "measure length")
  show "wf (measure length)" by simp
next
  fix s :: string
  assume "leadingSpace s \<noteq> 0"
  with leadingSpace_le [of s] show "(drop (leadingSpace s) s, s) \<in> measure length"
    by simp
qed

function TrimRight :: "string \<Rightarrow> string" where
  "TrimRight s =
     (if trailingSpace s = 0 then s else TrimRight (take (length s - trailingSpace s) s))"
  by pat_completeness auto
termination
proof (relation "measure length")
  show "wf (measure length)" by simp
next
  fix s :: string
  assume "trailingSpace s \<noteq> 0"
  with trailingSpace_le [of s]
  show "(take (length s - trailingSpace s) s, s) \<in> measure length"
    by simp
qed

declare TrimLeft.simps [simp del] TrimRight.simps [simp del]

definition TrimSpace :: "string \<Rightarrow> string" where
  "TrimSpace s = TrimRight (TrimLeft s)"

text \<open>\<open>strconv.ParseBool\<close>: the twelve spellings the standard library accepts.\<close>

definition ParseBool :: "string \<Rightarrow> bool option" where
  "ParseBool str =
     (if str \<in> set [''1'', ''t'', ''T'', ''TRUE'', ''true'', ''True''] then Some True
      else if str \<in> set [''0'', ''f'', ''F'', ''FALSE'', ''false'', ''False''] then Some False
      else None)"

text \<open>The verb \<open>%d\<close> of \<open>fmt\<close>: a decimal numeral, with a minus sign below zero.\<close>

function digits :: "nat \<Rightarrow> string" where
  "digits n = (if n < 10 then [char_of (48 + n)] else digits (n div 10) @ [char_of (48 + n mod 10)])"
  by pat_completeness auto
termination
  by (relation "measure id") auto

declare digits.simps [simp del]

definition itoa :: "int \<Rightarrow> string" where
  "itoa i = (if i < 0 then CHR ''-'' # digits (nat (- i)) else digits (nat i))"

text \<open>
  \<open>stack.Stack\<close> of \<open>golang-collections\<close>, holding the strings the parser pushes: the
  head of the list is the top. \<open>Peek\<close> and \<open>Pop\<close> return \<open>nil\<close> on an empty stack and
  \<open>Pop\<close> then leaves it empty.
\<close>

definition Len :: "'a list \<Rightarrow> int" where
  "Len st = int (length st)"

definition Peek :: "'a list \<Rightarrow> 'a option" where
  "Peek st = (case st of [] \<Rightarrow> None | x # _ \<Rightarrow> Some x)"

definition Push :: "'a list \<Rightarrow> 'a \<Rightarrow> 'a list" where
  "Push st x = x # st"

definition Pop :: "'a list \<Rightarrow> 'a list" where
  "Pop st = (case st of [] \<Rightarrow> [] | _ # st' \<Rightarrow> st')"

section \<open>ANTLR tokens and contexts\<close>

text \<open>
  The lexers, the parsers and the parse trees are generated by ANTLR and are not in
  the given sources. A token has a line, a column and a text; a terminal node gives its
  token (\<open>GetSymbol\<close>) and its text is the token's; a rule context gives its first and
  last token and its text.
\<close>

record Token =
  GetLine :: int
  GetColumn :: int
  GetText :: string

record TerminalNode =
  GetSymbol :: Token

definition TerminalNode_GetText :: "TerminalNode \<Rightarrow> string" where
  "TerminalNode_GetText n = Token.GetText (GetSymbol n)"

record ParserRuleContext =
  GetStart :: Token
  GetStop :: Token
  GetText :: string

section \<open>Package parsers\<close>

subsection \<open>Locations and field types\<close>

text \<open>
  \<open>CharLocation\<close> and \<open>TokenLocation\<close> are declared outside the given sources; their
  fields are the ones the parsers assign. (\<open>configfile.go\<close> as given declares the two
  locations of a \<open>Node\<close> as a line, a column and a length; the TOML parser and the
  analyzer assign and read them as \<open>TokenLocation\<close>.)
\<close>

record CharLocation =
  Line :: int
  Column :: int

record TokenLocation =
  Start :: CharLocation
  End :: CharLocation

text \<open>The zero value of \<open>TokenLocation\<close>, which a struct literal leaves in a field it omits.\<close>

definition zeroLocation :: TokenLocation where
  "zeroLocation = \<lparr>Start = \<lparr>Line = 0, Column = 0\<rparr>, End = \<lparr>Line = 0, Column = 0\<rparr>\<rparr>"

text \<open>
  \<open>FieldType\<close> (\<open>configfile.go\<close>). The constants \<open>Null\<close>, \<open>Bool\<close>, \<open>Int\<close>, \<open>Float\<close>,
  \<open>String\<close>, \<open>Array\<close>, \<open>Object\<close> carry the prefix \<open>F\<close> here, since \<open>Int\<close> is taken.
\<close>

datatype FieldType = FNull | FBool | FInt | FFloat | FString | FArray | FObject

subsection \<open>The TOML parser\<close>

text \<open>
  The TOML listener mutates the nodes it reaches through pointers, so here the nodes live
  in a store: an address holds a node, \<open>lim\<close> is the next unused address, and a \<open>*Node\<close> is
  an address or \<open>nil\<close> (\<open>None\<close>). The map of an object is held by one node alone (every map
  is made by a literal and stored in the node made with it), so it is kept in the node.
\<close>

type_synonym addr = nat

datatype HVal = HNil | HBool bool | HInt int | HFloat "64 word" | HString string
  | HArray "addr option list" | HObject "(string \<times> addr option) list"

record NodeCell =
  Type :: FieldType
  ArrayType :: FieldType
  Value :: HVal
  NameLocation :: TokenLocation
  ValueLocation :: TokenLocation

record CMParserError =
  Message :: string
  Location :: TokenLocation

record tomlParser =
  heap :: "addr \<Rightarrow> NodeCell"
  lim :: addr
  configFile :: "addr option"
  stack :: "addr list"
  directlyDefined :: "string \<Rightarrow> bool"
  errs :: "CMParserError list"

text \<open>
  The contexts of the generated TOML parser. A key is a simple key or a dotted key, given
  by the texts of its simple keys; both accessors return \<open>nil\<close> in \<open>NoKey\<close>.
\<close>

datatype KeyAlternative = Simple_key string | Dotted_key "string list" | NoKey

record KeyContext = ParserRuleContext +
  alternative :: KeyAlternative

record TableContext = ParserRuleContext +
  Key :: KeyContext

text \<open>\<open>tomlKey\<close> and its \<open>String\<close> method.\<close>

record tomlKey =
  segments :: "string list"

definition String :: "tomlKey \<Rightarrow> string" where
  "String tk = Join (segments tk) ''.''"

definition parseDottedKey :: "string list \<Rightarrow> tomlKey" where
  "parseDottedKey AllSimple_key = foldl (\<lambda>result key. result\<lparr>segments := segments result @ [key]\<rparr>)
     \<lparr>segments = []\<rparr> AllSimple_key"

definition parseKey :: "KeyContext \<Rightarrow> error + tomlKey" where
  "parseKey ctx =
     (case alternative ctx of
        Simple_key text \<Rightarrow> Inr \<lparr>segments = [text]\<rparr>
      | Dotted_key keys \<Rightarrow> Inr (parseDottedKey keys)
      | NoKey \<Rightarrow> Inl (Panic ''This should never happen''))"

text \<open>
  The location the listener computes for a context: lines count from zero, and the end
  is the column after the last token.
\<close>

definition tomlLocation :: "'a ParserRuleContext_scheme \<Rightarrow> TokenLocation" where
  "tomlLocation ctx =
     \<lparr>Start = \<lparr>Line = GetLine (GetStart ctx) - 1, Column = GetColumn (GetStart ctx)\<rparr>,
      End = \<lparr>Line = GetLine (GetStop ctx) - 1,
             Column = GetColumn (GetStop ctx) + int (length (Token.GetText (GetStop ctx)))\<rparr>\<rparr>"

text \<open>\<open>&Node{...}\<close>: the literal is stored at the next unused address.\<close>

definition newNode :: "tomlParser \<Rightarrow> NodeCell \<Rightarrow> tomlParser \<times> addr" where
  "newNode p n = (p\<lparr>heap := (heap p)(lim p := n), lim := Suc (lim p)\<rparr>, lim p)"

definition nullNode :: NodeCell where
  "nullNode = \<lparr>Type = FNull, ArrayType = FNull, Value = HNil,
     NameLocation = zeroLocation, ValueLocation = zeroLocation\<rparr>"

definition objectNode :: NodeCell where
  "objectNode = \<lparr>Type = FObject, ArrayType = FNull, Value = HObject [],
     NameLocation = zeroLocation, ValueLocation = zeroLocation\<rparr>"

text \<open>
  \<open>getOrCreateNode\<close>: the loop over the segments, with \<open>currentNode\<close> as its variable. The
  result is the parser with the nodes created so far, and the returned pair: an error
  (\<open>Inl\<close>; a panic where a type assertion on \<open>Value\<close> fails) or the node. The source
  prints an undeclared \<open>key\<close> in its messages; it is the path of the segments here.
\<close>

fun getOrCreateLoop ::
  "string \<Rightarrow> tomlParser \<Rightarrow> addr option \<Rightarrow> string list \<Rightarrow> tomlParser \<times> (error + addr option)" where
  "getOrCreateLoop key p currentNode [] = (p, Inr currentNode)"
| "getOrCreateLoop key p currentNode (segment # rest) =
     (case currentNode of
        None \<Rightarrow> (p, Inl (Errorf (''cannot traverse nil node in path '' @ key)))
      | Some cur \<Rightarrow>
          (case NodeCell.Type (heap p cur) of
             FObject \<Rightarrow>
               (case NodeCell.Value (heap p cur) of
                  HObject objMap \<Rightarrow>
                    (case map_of objMap segment of
                       Some nextNode \<Rightarrow> getOrCreateLoop key p nextNode rest
                     | None \<Rightarrow>
                         (case newNode p (if rest = [] then nullNode else objectNode) of
                            (p1, new) \<Rightarrow>
                              getOrCreateLoop key
                                (p1\<lparr>heap := (heap p1)
                                   (cur := (heap p1 cur)
                                      \<lparr>Value := HObject (AList.update segment (Some new) objMap)\<rparr>)\<rparr>)
                                (Some new) rest))
                | _ \<Rightarrow> (p, Inl RuntimePanic))
           | FArray \<Rightarrow>
               (case NodeCell.Value (heap p cur) of
                  HArray arrayValue \<Rightarrow>
                    if length arrayValue = 0
                    then (p, Inl (Errorf (''cannot traverse empty array in path '' @ key)))
                    else getOrCreateLoop key p (last arrayValue) rest
                | _ \<Rightarrow> (p, Inl RuntimePanic))
           | _ \<Rightarrow>
               (p, Inl (Errorf (''cannot traverse leaf node '' @ segment @ '' in path '' @ key)))))"

definition getOrCreateNode ::
  "tomlParser \<Rightarrow> addr option \<Rightarrow> string list \<Rightarrow> tomlParser \<times> (error + addr option)" where
  "getOrCreateNode p parentNode segs = getOrCreateLoop (Join segs ''.'') p parentNode segs"

definition keyError :: "tomlParser \<Rightarrow> string \<Rightarrow> KeyContext \<Rightarrow> tomlParser" where
  "keyError p msg key =
     p\<lparr>errs := tomlParser.errs p @ [\<lparr>Message = msg, Location = tomlLocation key\<rparr>]\<rparr>"

definition isPanic :: "error \<Rightarrow> bool" where
  "isPanic e = (case e of Panic _ \<Rightarrow> True | RuntimePanic \<Rightarrow> True | _ \<Rightarrow> False)"

definition EnterStandard_table :: "tomlParser \<Rightarrow> TableContext \<Rightarrow> error + tomlParser" where
  "EnterStandard_table p ctx =
     (case parseKey (Key ctx) of
        Inl e \<Rightarrow> Inl e
      | Inr fieldKey \<Rightarrow>
          if directlyDefined p (String fieldKey)
          then Inr (keyError p (''can't redefine existing key '' @ String fieldKey) (Key ctx))
          else
            (let p1 = p\<lparr>directlyDefined := (directlyDefined p)(String fieldKey := True)\<rparr>
             in case getOrCreateNode p1 (configFile p1) (segments fieldKey) of
                  (p2, Inl err) \<Rightarrow>
                    if isPanic err then Inl err else Inr (keyError p2 (Error err) (Key ctx))
                | (p2, Inr None) \<Rightarrow> Inl RuntimePanic
                | (p2, Inr (Some fieldNode)) \<Rightarrow>
                    (let p3 = p2\<lparr>heap := (heap p2)
                                (fieldNode := (heap p2 fieldNode)
                                   \<lparr>NameLocation := tomlLocation ctx\<rparr>)\<rparr>;
                         p4 = p3\<lparr>heap := (heap p3)
                                (fieldNode := (heap p3 fieldNode)
                                   \<lparr>ValueLocation :=
                                      NodeCell.NameLocation (heap p3 fieldNode)\<rparr>)\<rparr>;
                         p5 = (if NodeCell.Type (heap p4 fieldNode) = FNull
                               then p4\<lparr>heap := (heap p4)
                                      (fieldNode := (heap p4 fieldNode)
                                         \<lparr>Type := FObject, Value := HObject []\<rparr>)\<rparr>
                               else p4)
                     in Inr (p5\<lparr>stack := Push (stack p5) fieldNode\<rparr>))))"

definition EnterArray_table :: "tomlParser \<Rightarrow> TableContext \<Rightarrow> error + tomlParser" where
  "EnterArray_table p ctx =
     (case parseKey (Key ctx) of
        Inl e \<Rightarrow> Inl e
      | Inr fieldKey \<Rightarrow>
          if directlyDefined p (String fieldKey)
          then Inr (keyError p (''can't redefine existing key '' @ String fieldKey) (Key ctx))
          else
            (case getOrCreateNode p (configFile p) (segments fieldKey) of
               (p2, Inl err) \<Rightarrow>
                 if isPanic err then Inl err else Inr (keyError p2 (Error err) (Key ctx))
             | (p2, Inr None) \<Rightarrow> Inl RuntimePanic
             | (p2, Inr (Some fieldNode)) \<Rightarrow>
                 (let p3 = (if NodeCell.Type (heap p2 fieldNode) = FNull
                            then p2\<lparr>heap := (heap p2)
                                   (fieldNode := (heap p2 fieldNode)
                                      \<lparr>Type := FArray, Value := HArray []\<rparr>)\<rparr>
                            else p2)
                  in case newNode p3 (objectNode\<lparr>NameLocation := tomlLocation ctx\<rparr>) of
                       (p4, newInArrayTable) \<Rightarrow>
                         (let p5 = p4\<lparr>heap := (heap p4)
                                     (newInArrayTable := (heap p4 newInArrayTable)
                                        \<lparr>ValueLocation :=
                                           NodeCell.NameLocation (heap p4 newInArrayTable)\<rparr>)\<rparr>
                          in case NodeCell.Value (heap p5 fieldNode) of
                               HArray arrayValue \<Rightarrow>
                                 Inr (p5\<lparr>heap := (heap p5)
                                        (fieldNode := (heap p5 fieldNode)
                                           \<lparr>Value := HArray (arrayValue @ [Some newInArrayTable])\<rparr>),
                                      stack := Push (stack p5) newInArrayTable\<rparr>)
                             | _ \<Rightarrow> Inl RuntimePanic))))"

text \<open>
  \<open>Parse\<close>, from the tree on: the root object is made and pushed, and the map of the
  directly defined keys is emptied. \<open>errs\<close> keeps what it held.
\<close>

definition initWalk :: "tomlParser \<Rightarrow> tomlParser" where
  "initWalk p =
     (case newNode p objectNode of
        (p1, root) \<Rightarrow>
          p1\<lparr>configFile := Some root, stack := Push [] root, directlyDefined := (\<lambda>key. False)\<rparr>)"

subsection \<open>The located value tree\<close>

text \<open>
  A \<open>Node\<close> as the analyzer reads it: a tree. \<open>Value\<close> is an \<open>interface{}\<close>; \<open>Val\<close> lists
  the dynamic types it holds (\<open>nil\<close>, \<open>bool\<close>, \<open>int\<close>, \<open>float64\<close> as its 64 bits,
  \<open>string\<close>, \<open>[]*Node\<close>, \<open>map[string]*Node\<close>). A \<open>*Node\<close> may be \<open>nil\<close>: \<open>None\<close>. A map is
  a list of bindings read with \<open>map_of\<close>.
\<close>

datatype Val = VNil | VBool bool | VInt int | VFloat "64 word" | VString string
  | VArray "Node option list" | VObject "(string \<times> Node option) list"
and Node = Node (Type: FieldType) (ArrayType: FieldType) (Value: Val)
  (NameLocation: TokenLocation) (ValueLocation: TokenLocation)

section \<open>Package types: custom objects\<close>

text \<open>
  Modelled from the spec: \<open>spec.ObjectDef\<close> is declared outside the given sources. A
  named object type carries an ordered list of declared properties, each with a name, a
  type descriptor and an optional/required flag.
\<close>

record PropertyDef =
  Name :: string
  Type :: string
  Optional :: bool

record ObjectDef =
  Name :: string
  Properties :: "PropertyDef list"

text \<open>
  Modelled from the spec: of the implementations of \<open>IType\<close> only \<open>tCustomObject\<close> is in
  the given sources. A typed value is a primitive scalar, a list of typed values (with
  its descriptor) or a custom object; \<open>TString s\<close> is a \<open>*tString\<close> whose field \<open>value\<close>
  is \<open>s\<close>, which \<open>Value()\<close> returns.
\<close>

datatype IType = TBool bool | TInt int | TFloat "64 word" | TString string
  | TList string "IType list" | TObject tCustomObject
and tCustomObject = tCustomObject (ObjectName: string) (Fields: "(string \<times> IType) list")

type_synonym Method = "IType list \<Rightarrow> error + IType"

text \<open>
  \<open>customObjectFactory\<close>. \<open>MakeType\<close> is not in the given sources and is a parameter.
  \<open>customObjectProps\<close> is the loop over \<open>definition.Properties\<close>, with \<open>object\<close> as its
  variable; \<open>propNode.Value\<close> on a \<open>nil\<close> node is a nil dereference.
\<close>

fun customObjectProps ::
  "(string \<Rightarrow> Val \<Rightarrow> error + IType) \<Rightarrow> (string \<times> Node option) list \<Rightarrow>
   PropertyDef list \<Rightarrow> tCustomObject \<Rightarrow> error + tCustomObject" where
  "customObjectProps MakeType objValue [] object = Inr object"
| "customObjectProps MakeType objValue (prop # props) object =
     (case map_of objValue (PropertyDef.Name prop) of
        Some propNode \<Rightarrow>
          (case propNode of
             None \<Rightarrow> Inl RuntimePanic
           | Some n \<Rightarrow>
               (case MakeType (PropertyDef.Type prop) (Value n) of
                  Inl err \<Rightarrow> Inl err
                | Inr t \<Rightarrow>
                    customObjectProps MakeType objValue props
                      (tCustomObject (ObjectName object)
                         (AList.update (PropertyDef.Name prop) t (tCustomObject.Fields object)))))
      | None \<Rightarrow>
          if \<not> PropertyDef.Optional prop
          then Inl (Errorf (''missing required property '' @ PropertyDef.Name prop))
          else customObjectProps MakeType objValue props object)"

definition customObjectFactory ::
  "(string \<Rightarrow> Val \<Rightarrow> error + IType) \<Rightarrow> (string \<times> Node option) list \<Rightarrow> ObjectDef \<Rightarrow>
   error + IType" where
  "customObjectFactory MakeType objValue definition =
     (case customObjectProps MakeType objValue (Properties definition)
             (tCustomObject (ObjectDef.Name definition) []) of
        Inl err \<Rightarrow> Inl err
      | Inr object \<Rightarrow> Inr (TObject object))"

text \<open>
  Modelled from the spec: \<open>MakeType\<close> is called by \<open>customObjectFactory\<close> and is not in the
  given sources. Primitive descriptors wrap scalar values directly; a \<open>list:\<close> prefix
  wraps each array element recursively, and an element type mismatch is an error, not
  a silent coercion; a named object descriptor looks up that type's declared property
  list (in \<open>defs\<close>) and builds a custom object with \<open>customObjectFactory\<close>.
\<close>

lemma customObjectProps_cong [fundef_cong]:
  assumes "objValue = objValue'" "props = props'" "object = object'"
    and "\<And>prop n. prop \<in> set props' \<Longrightarrow>
           map_of objValue' (PropertyDef.Name prop) = Some (Some n) \<Longrightarrow>
           mk (PropertyDef.Type prop) (Value n) = mk' (PropertyDef.Type prop) (Value n)"
  shows "customObjectProps mk objValue props object =
         customObjectProps mk' objValue' props' object'"
  using assms
  by (induction props' arbitrary: props object object')
     (auto split: option.splits sum.splits)

lemma customObjectFactory_cong [fundef_cong]:
  assumes "objValue = objValue'" "d = d'"
    and "\<And>prop n. prop \<in> set (Properties d') \<Longrightarrow>
           map_of objValue' (PropertyDef.Name prop) = Some (Some n) \<Longrightarrow>
           mk (PropertyDef.Type prop) (Value n) = mk' (PropertyDef.Type prop) (Value n)"
  shows "customObjectFactory mk objValue d = customObjectFactory mk' objValue' d'"
proof -
  have "customObjectProps mk objValue (Properties d) (tCustomObject (ObjectDef.Name d) []) =
        customObjectProps mk' objValue' (Properties d') (tCustomObject (ObjectDef.Name d') [])"
    using assms by (intro customObjectProps_cong) auto
  then show ?thesis by (simp add: customObjectFactory_def)
qed

fun makeElements :: "('a \<Rightarrow> error + 'b) \<Rightarrow> 'a list \<Rightarrow> error + 'b list" where
  "makeElements f [] = Inr []"
| "makeElements f (x # xs) =
     (case f x of
        Inl e \<Rightarrow> Inl e
      | Inr y \<Rightarrow> (case makeElements f xs of Inl e \<Rightarrow> Inl e | Inr ys \<Rightarrow> Inr (y # ys)))"

lemma makeElements_cong [fundef_cong]:
  "xs = ys \<Longrightarrow> (\<And>x. x \<in> set ys \<Longrightarrow> f x = g x) \<Longrightarrow> makeElements f xs = makeElements g ys"
  by (induction ys arbitrary: xs) (auto split: sum.splits)

lemma size_Value: "size (Value n) < size n"
  by (cases n) simp

lemma size_map_of:
  "map_of m k = Some (Some n) \<Longrightarrow>
   size (Value n) < Suc (size_list (size_prod (\<lambda>x. 0) (size_option size)) m)"
proof (induction m)
  case Nil
  then show ?case by simp
next
  case (Cons a m)
  show ?case
  proof (cases "fst a = k")
    case True
    with Cons.prems have "snd a = Some n" by simp
    then obtain s where "a = (s, Some n)" by (metis prod.collapse)
    then have "size n < size_prod (\<lambda>x. 0) (size_option size) a"
      by simp
    with size_Value [of n] show ?thesis by simp
  next
    case False
    with Cons show ?thesis by simp
  qed
qed

lemma size_in_array:
  "Some n \<in> set ns \<Longrightarrow> size (Value n) < Suc (size_list (size_option size) ns)"
proof (induction ns)
  case Nil
  then show ?case by simp
next
  case (Cons a ns)
  then show ?case using size_Value [of n] by auto
qed

function MakeType_spec :: "(string \<rightharpoonup> ObjectDef) \<Rightarrow> string \<Rightarrow> Val \<Rightarrow> error + IType" where
  "MakeType_spec defs typ v =
     (if typ = ''bool''
      then (case v of VBool b \<Rightarrow> Inr (TBool b) | _ \<Rightarrow> Inl (TypeMismatch typ))
      else if typ = ''int''
      then (case v of VInt i \<Rightarrow> Inr (TInt i) | _ \<Rightarrow> Inl (TypeMismatch typ))
      else if typ = ''float''
      then (case v of VFloat f \<Rightarrow> Inr (TFloat f) | _ \<Rightarrow> Inl (TypeMismatch typ))
      else if typ = ''string''
      then (case v of VString s \<Rightarrow> Inr (TString s) | _ \<Rightarrow> Inl (TypeMismatch typ))
      else if HasPrefix typ ''list:''
      then (case v of
              VArray ns \<Rightarrow>
                (case makeElements
                        (\<lambda>n. case n of
                               None \<Rightarrow> Inl RuntimePanic
                             | Some n' \<Rightarrow> MakeType_spec defs (drop 5 typ) (Value n')) ns of
                   Inl e \<Rightarrow> Inl e
                 | Inr ts \<Rightarrow> Inr (TList typ ts))
            | _ \<Rightarrow> Inl (TypeMismatch typ))
      else (case defs typ of
              None \<Rightarrow> Inl (UnknownType typ)
            | Some d \<Rightarrow>
                (case v of
                   VObject m \<Rightarrow> customObjectFactory (MakeType_spec defs) m d
                 | _ \<Rightarrow> Inl (TypeMismatch typ))))"
  by pat_completeness auto
termination
  by (relation "measure (\<lambda>(defs, typ, v). size v)")
     (auto simp: size_map_of size_in_array)

declare MakeType_spec.simps [simp del]

text \<open>\<open>tCustomObject.GetMethod\<close>: the method table holds \<open>get\<close> alone.\<close>

definition tCustomObject_get :: "tCustomObject \<Rightarrow> Method" where
  "tCustomObject_get t args =
     (if length args \<noteq> 1
      then Inl (Errorf (ObjectName t @ ''.get expects 1 argument''))
      else (case args ! 0 of
              TString field \<Rightarrow>
                (case map_of (tCustomObject.Fields t) field of
                   None \<Rightarrow> Inl (Errorf (ObjectName t @ '' does not have field '' @ field))
                 | Some v \<Rightarrow> Inr v)
            | _ \<Rightarrow> Inl (Errorf (''argument to '' @ ObjectName t @ ''.get must be a string''))))"

definition GetMethod :: "tCustomObject \<Rightarrow> string \<Rightarrow> Method" where
  "GetMethod t method =
     (let tCustomObjectMethods = [(''get'', tCustomObject_get t)]
      in case map_of tCustomObjectMethods method of
           None \<Rightarrow> (\<lambda>args. Inl (Errorf (ObjectName t @ '' does not have method '' @ method)))
         | Some m \<Rightarrow> m)"

section \<open>Package spec: the specification parser\<close>

subsection \<open>Type descriptors\<close>

text \<open>
  \<open>condenseListExpressions\<close>: the loop strips one \<open>list<\<close> ... \<open>>\<close> wrapper per round and
  appends \<open>list:\<close> to the result. \<open>condenseLoop\<close> is the loop with its two variables.
\<close>

function condenseLoop :: "string \<Rightarrow> string \<Rightarrow> error + string" where
  "condenseLoop result typeStr =
     (if HasPrefix typeStr ''list<'' \<and> HasSuffix typeStr ''>''
      then (case slice typeStr 5 (int (length typeStr) - 1) of
              Inl e \<Rightarrow> Inl e
            | Inr typeStr' \<Rightarrow> condenseLoop (result @ ''list:'') typeStr')
      else Inr (result @ typeStr))"
  by pat_completeness auto
termination
  by (relation "measure (\<lambda>(result, typeStr). length typeStr)")
     (auto simp: slice_def HasPrefix_def split: if_splits)

declare condenseLoop.simps [simp del]

definition condenseListExpressions :: "string \<Rightarrow> error + string" where
  "condenseListExpressions typeStr = condenseLoop '''' typeStr"

subsection \<open>The parse tree\<close>

text \<open>
  The alternatives of \<open>metadataItem\<close> the listener switches on; \<open>OtherMetadataContext\<close> is
  any other implementation, with its text, which the \<open>default\<close> branch receives.
\<close>

datatype MetadataItem =
    TypeMetadataContext (TypeExpr: ParserRuleContext)
  | OptionalMetadataContext (BOOL: TerminalNode)
  | DefaultMetadataContext (Primitive: ParserRuleContext)
  | NotesMetadataContext (StringExpr: ParserRuleContext)
  | OtherMetadataContext string

record FileDeclarationContext =
  SHORT_STRING :: TerminalNode
  IDENTIFIER :: TerminalNode

record ImportItemContext =
  IDENTIFIER :: TerminalNode
  SHORT_STRING :: TerminalNode

text \<open>
  \<open>AllMetadataItem\<close> is \<open>ctx.MetadataExpression().AllMetadataItem()\<close>; \<open>AllCheck\<close> is
  \<open>ctx.AllCheck()\<close>, which the file under \<open>analyzer/spec\<close> calls \<open>ctx.AllCheckStatement()\<close>.
\<close>

record SpecificationItemContext =
  FieldName :: ParserRuleContext
  AllMetadataItem :: "MetadataItem list"
  AllCheck :: "ParserRuleContext list"

text \<open>
  A parse tree is a rule node with its context and its children, in document order.
  Terminal nodes are left out: the listener does nothing on them. \<open>OtherContext\<close> is a
  rule the listener has no method for.
\<close>

datatype Ctx =
    FileDeclaration FileDeclarationContext
  | ImportItem ImportItemContext
  | SpecificationItem SpecificationItemContext
  | OtherContext

datatype ParseTree = RuleNode Ctx "ParseTree list"

subsection \<open>The compiled model\<close>

text \<open>
  \<open>Specification\<close>, \<open>FieldSpec\<close> and \<open>CheckWithLocation\<close> are declared outside the given
  sources; their fields are the ones the parser assigns.
\<close>

record CheckWithLocation =
  Check :: string
  Location :: TokenLocation

record FieldSpec =
  Field :: string
  FieldLocation :: TokenLocation
  FieldType :: string
  FieldTypeLocation :: TokenLocation
  Optional :: bool
  OptionalLocation :: TokenLocation
  Default :: string
  DefaultLocation :: TokenLocation
  Notes :: string
  NotesLocation :: TokenLocation
  Checks :: "CheckWithLocation list"

record Specification =
  File :: string
  FileLocation :: TokenLocation
  FileFormat :: string
  FileFormatLocation :: TokenLocation
  Imports :: "string \<rightharpoonup> string"
  ImportsLocation :: "string \<rightharpoonup> TokenLocation"
  Fields :: "FieldSpec list"

text \<open>
  \<open>errs\<close> is the \<open>error\<close> that \<open>multierr.Append\<close> builds: the list of the errors
  appended so far, \<open>nil\<close> when empty.
\<close>

record specParserImpl =
  spec :: Specification
  itemFieldStack :: "string list"
  errs :: "error list"

record cmslErrorListener =
  errors :: "error list"

definition SyntaxError :: "cmslErrorListener \<Rightarrow> int \<times> int \<times> string \<Rightarrow> cmslErrorListener" where
  "SyntaxError d report =
     (case report of (line, column, msg) \<Rightarrow>
        d\<lparr>errors := errors d @
             [Errorf (''line '' @ itoa line @ '':'' @ itoa column @ '' '' @ msg)]\<rparr>)"

text \<open>
  \<open>multierr.Combine(errs...)\<close> formatted with \<open>%v\<close>: the messages, separated by \<open>; \<close>.
\<close>

definition Combine :: "error list \<Rightarrow> string" where
  "Combine es = Join (map Error es) ''; ''"

text \<open>
  The location of a terminal node: from its token's position to the column after its
  text. The location of a rule context: from the position of its first token to the
  column after its last token.
\<close>

definition terminalLocation :: "TerminalNode \<Rightarrow> TokenLocation" where
  "terminalLocation n =
     \<lparr>Start = \<lparr>Line = GetLine (GetSymbol n), Column = GetColumn (GetSymbol n)\<rparr>,
      End = \<lparr>Line = GetLine (GetSymbol n),
             Column = GetColumn (GetSymbol n) + int (length (TerminalNode_GetText n))\<rparr>\<rparr>"

definition ruleLocation :: "ParserRuleContext \<Rightarrow> TokenLocation" where
  "ruleLocation c =
     \<lparr>Start = \<lparr>Line = GetLine (GetStart c), Column = GetColumn (GetStart c)\<rparr>,
      End = \<lparr>Line = GetLine (GetStop c),
             Column = GetColumn (GetStop c) + int (length (Token.GetText (GetStop c)))\<rparr>\<rparr>"

subsection \<open>The listener\<close>

definition removeStrQuotesAndCleanSpaces :: "string \<Rightarrow> error + string" where
  "removeStrQuotesAndCleanSpaces str =
     (case (if HasPrefix str [CHR 0x22, CHR 0x22, CHR 0x22]
            then slice str 3 (int (length str) - 3)
            else if HasPrefix str [CHR 0x22]
            then slice str 1 (int (length str) - 1)
            else Inr str) of
        Inl e \<Rightarrow> Inl e
      | Inr str' \<Rightarrow> Inr (TrimSpace (ReplaceAllSpaces str')))"

definition EnterFileDeclaration ::
  "specParserImpl \<Rightarrow> FileDeclarationContext \<Rightarrow> error + specParserImpl" where
  "EnterFileDeclaration p ctx =
     (case removeStrQuotesAndCleanSpaces
             (TerminalNode_GetText (FileDeclarationContext.SHORT_STRING ctx)) of
        Inl e \<Rightarrow> Inl e
      | Inr file \<Rightarrow>
          Inr (p\<lparr>spec := (spec p)
                 \<lparr>File := file,
                  FileLocation := terminalLocation (FileDeclarationContext.SHORT_STRING ctx),
                  FileFormat := TerminalNode_GetText (FileDeclarationContext.IDENTIFIER ctx),
                  FileFormatLocation :=
                    terminalLocation (FileDeclarationContext.IDENTIFIER ctx)\<rparr>\<rparr>))"

definition EnterImportItem ::
  "specParserImpl \<Rightarrow> ImportItemContext \<Rightarrow> error + specParserImpl" where
  "EnterImportItem p ctx =
     (case removeStrQuotesAndCleanSpaces
             (TerminalNode_GetText (ImportItemContext.SHORT_STRING ctx)) of
        Inl e \<Rightarrow> Inl e
      | Inr path \<Rightarrow>
          Inr (p\<lparr>spec := (spec p)
                 \<lparr>Imports := (Imports (spec p))
                    (TerminalNode_GetText (ImportItemContext.IDENTIFIER ctx) \<mapsto> path),
                  ImportsLocation := (ImportsLocation (spec p))
                    (TerminalNode_GetText (ImportItemContext.IDENTIFIER ctx) \<mapsto>
                       terminalLocation (ImportItemContext.SHORT_STRING ctx))\<rparr>\<rparr>))"

text \<open>
  The local variables of \<open>EnterSpecificationItem\<close> that its loop over the metadata items
  reads and writes.
\<close>

record itemLocals =
  fieldSpecification :: FieldSpec
  foundType :: bool
  foundDefault :: bool
  foundOptional :: bool
  foundNotes :: bool

text \<open>
  One round of the loop: the \<open>switch\<close> on the dynamic type of the item. A duplicate
  appends an error and goes on with the next item (\<open>continue\<close>). The \<open>notes\<close> case tests
  \<open>foundNotes\<close> and never assigns it.
\<close>

definition metadataItem ::
  "string \<Rightarrow> MetadataItem \<Rightarrow> specParserImpl \<times> itemLocals \<Rightarrow>
   error + specParserImpl \<times> itemLocals" where
  "metadataItem fieldName item st =
     (case st of (p, l) \<Rightarrow>
        (case item of
           TypeMetadataContext typeExpr \<Rightarrow>
             if foundType l
             then Inr (p\<lparr>errs := errs p @
                         [Errorf (''duplicate type metadata for field '' @ fieldName)]\<rparr>, l)
             else (case condenseListExpressions (ParserRuleContext.GetText typeExpr) of
                     Inl e \<Rightarrow> Inl e
                   | Inr t \<Rightarrow>
                       Inr (p, l\<lparr>foundType := True,
                                 fieldSpecification := (fieldSpecification l)
                                   \<lparr>FieldType := t,
                                    FieldTypeLocation := ruleLocation typeExpr\<rparr>\<rparr>))
         | OptionalMetadataContext b \<Rightarrow>
             if foundOptional l
             then Inr (p\<lparr>errs := errs p @
                         [Errorf (''duplicate optional metadata for field '' @ fieldName)]\<rparr>, l)
             else (case ParseBool (TerminalNode_GetText b) of
                     None \<Rightarrow>
                       Inl (Panic (''optional must be a bool, found: '' @ TerminalNode_GetText b @
                         ''; this error should have been cought in a previous stage''))
                   | Some optional \<Rightarrow>
                       Inr (p, l\<lparr>foundOptional := True,
                                 fieldSpecification := (fieldSpecification l)
                                   \<lparr>FieldSpec.Optional := optional,
                                    OptionalLocation := terminalLocation b\<rparr>\<rparr>))
         | DefaultMetadataContext primitive \<Rightarrow>
             if foundDefault l
             then Inr (p\<lparr>errs := errs p @
                         [Errorf (''duplicate default metadata for field '' @ fieldName)]\<rparr>, l)
             else (case removeStrQuotesAndCleanSpaces (ParserRuleContext.GetText primitive) of
                     Inl e \<Rightarrow> Inl e
                   | Inr d \<Rightarrow>
                       Inr (p, l\<lparr>foundDefault := True,
                                 fieldSpecification := (fieldSpecification l)
                                   \<lparr>Default := d,
                                    DefaultLocation := ruleLocation primitive\<rparr>\<rparr>))
         | NotesMetadataContext stringExpr \<Rightarrow>
             if foundNotes l
             then Inr (p\<lparr>errs := errs p @
                         [Errorf (''duplicate notes metadata for field '' @ fieldName)]\<rparr>, l)
             else (case removeStrQuotesAndCleanSpaces (ParserRuleContext.GetText stringExpr) of
                     Inl e \<Rightarrow> Inl e
                   | Inr n \<Rightarrow>
                       Inr (p, l\<lparr>fieldSpecification := (fieldSpecification l)
                                   \<lparr>Notes := n,
                                    NotesLocation := ruleLocation stringExpr\<rparr>\<rparr>))
         | OtherMetadataContext text \<Rightarrow>
             Inl (Panic (''unknown metadata item: '' @ text @
               ''; this error should have been cought in a previous stage''))))"

fun metadataLoop ::
  "string \<Rightarrow> MetadataItem list \<Rightarrow> specParserImpl \<times> itemLocals \<Rightarrow>
   error + specParserImpl \<times> itemLocals" where
  "metadataLoop fieldName [] st = Inr st"
| "metadataLoop fieldName (item # items) st =
     (case metadataItem fieldName item st of
        Inl e \<Rightarrow> Inl e
      | Inr st' \<Rightarrow> metadataLoop fieldName items st')"

definition appendCheck :: "FieldSpec \<Rightarrow> ParserRuleContext \<Rightarrow> FieldSpec" where
  "appendCheck fs c =
     fs\<lparr>Checks := Checks fs @
       [\<lparr>Check = ParserRuleContext.GetText c, Location = ruleLocation c\<rparr>]\<rparr>"

text \<open>The \<open>FieldSpec\<close> literal: the fields it omits hold their zero values.\<close>

definition newFieldSpec :: "string \<Rightarrow> TokenLocation \<Rightarrow> FieldSpec" where
  "newFieldSpec fieldName loc =
     \<lparr>Field = fieldName, FieldLocation = loc,
      FieldType = [], FieldTypeLocation = zeroLocation,
      Optional = False, OptionalLocation = zeroLocation,
      Default = [], DefaultLocation = zeroLocation,
      Notes = [], NotesLocation = zeroLocation,
      Checks = []\<rparr>"

text \<open>
  \<open>EnterSpecificationItem\<close>. The field's path is the local name, or the top of the stack,
  a dot and the local name when the stack is not empty.
\<close>

definition EnterSpecificationItem ::
  "specParserImpl \<Rightarrow> SpecificationItemContext \<Rightarrow> error + specParserImpl" where
  "EnterSpecificationItem p ctx =
     (case (if Len (itemFieldStack p) \<noteq> 0
            then (case Peek (itemFieldStack p) of
                    None \<Rightarrow> Inl RuntimePanic
                  | Some parentField \<Rightarrow>
                      Inr (parentField @ ''.'' @ ParserRuleContext.GetText (FieldName ctx)))
            else Inr (ParserRuleContext.GetText (FieldName ctx))) of
        Inl e \<Rightarrow> Inl e
      | Inr fieldName \<Rightarrow>
          (let p1 = p\<lparr>itemFieldStack := Push (itemFieldStack p) fieldName\<rparr>;
               locals = \<lparr>fieldSpecification =
                           newFieldSpec fieldName (ruleLocation (FieldName ctx)),
                         foundType = False, foundDefault = False, foundOptional = False,
                         foundNotes = False\<rparr>
           in case metadataLoop fieldName (AllMetadataItem ctx) (p1, locals) of
                Inl e \<Rightarrow> Inl e
              | Inr (p2, l) \<Rightarrow>
                  (let p3 = (if \<not> foundType l
                             then p2\<lparr>errs := errs p2 @
                                    [Errorf (''missing type metadata for field '' @ fieldName)]\<rparr>
                             else p2);
                       fs = foldl appendCheck (fieldSpecification l) (AllCheck ctx)
                   in Inr (p3\<lparr>spec := (spec p3)
                             \<lparr>Fields := Specification.Fields (spec p3) @ [fs]\<rparr>\<rparr>))))"

definition ExitSpecificationItem :: "specParserImpl \<Rightarrow> specParserImpl" where
  "ExitSpecificationItem p = p\<lparr>itemFieldStack := Pop (itemFieldStack p)\<rparr>"

text \<open>
  \<open>antlr.ParseTreeWalker.Walk\<close> with a listener given by its two dispatch functions:
  enter the rule, walk the children in order, exit the rule. A panic in a callback ends
  the walk.
\<close>

fun Walk ::
  "('p \<Rightarrow> Ctx \<Rightarrow> error + 'p) \<Rightarrow> ('p \<Rightarrow> Ctx \<Rightarrow> error + 'p) \<Rightarrow> 'p \<Rightarrow> ParseTree \<Rightarrow> error + 'p"
  and WalkChildren ::
  "('p \<Rightarrow> Ctx \<Rightarrow> error + 'p) \<Rightarrow> ('p \<Rightarrow> Ctx \<Rightarrow> error + 'p) \<Rightarrow> 'p \<Rightarrow> ParseTree list \<Rightarrow>
   error + 'p" where
  "Walk enter exit p (RuleNode ctx children) =
     (case enter p ctx of
        Inl e \<Rightarrow> Inl e
      | Inr p1 \<Rightarrow>
          (case WalkChildren enter exit p1 children of
             Inl e \<Rightarrow> Inl e
           | Inr p2 \<Rightarrow> exit p2 ctx))"
| "WalkChildren enter exit p [] = Inr p"
| "WalkChildren enter exit p (t # ts) =
     (case Walk enter exit p t of
        Inl e \<Rightarrow> Inl e
      | Inr p' \<Rightarrow> WalkChildren enter exit p' ts)"

text \<open>
  The listener \<open>specParserImpl\<close>: the methods it overrides; the base listener does
  nothing on every other rule.
\<close>

definition EnterRule :: "specParserImpl \<Rightarrow> Ctx \<Rightarrow> error + specParserImpl" where
  "EnterRule p ctx =
     (case ctx of
        FileDeclaration c \<Rightarrow> EnterFileDeclaration p c
      | ImportItem c \<Rightarrow> EnterImportItem p c
      | SpecificationItem c \<Rightarrow> EnterSpecificationItem p c
      | OtherContext \<Rightarrow> Inr p)"

definition ExitRule :: "specParserImpl \<Rightarrow> Ctx \<Rightarrow> error + specParserImpl" where
  "ExitRule p ctx =
     (case ctx of
        SpecificationItem c \<Rightarrow> Inr (ExitSpecificationItem p)
      | _ \<Rightarrow> Inr p)"

text \<open>
  \<open>Parse\<close>. The ANTLR front end is given by what it yields for the source text: the
  syntax errors the lexer and the parser report to the listener while \<open>parser.Cmsl()\<close>
  runs (\<open>reports\<close>: line, column, message) and the parse tree. The first test of the
  listener comes before any token is read. The result is the returned pair (\<open>None\<close> is
  \<open>nil\<close>) and the receiver as \<open>Parse\<close> leaves it.
\<close>

definition emptySpecification :: Specification where
  "emptySpecification =
     \<lparr>File = [], FileLocation = zeroLocation, FileFormat = [],
      FileFormatLocation = zeroLocation, Imports = Map.empty, ImportsLocation = Map.empty,
      Fields = []\<rparr>"

definition Parse ::
  "specParserImpl \<Rightarrow> (int \<times> int \<times> string) list \<Rightarrow> ParseTree \<Rightarrow>
   error + (Specification option \<times> error option) \<times> specParserImpl" where
  "Parse p reports tree =
     (let errorListener = \<lparr>errors = []\<rparr>
      in if length (errors errorListener) > 0
         then Inr ((None, Some (Errorf (''syntax errors: '' @ Combine (errors errorListener)))), p)
         else
           (let errorListener = foldl SyntaxError errorListener reports
            in if length (errors errorListener) > 0
               then Inr ((None,
                          Some (Errorf (''syntax errors: '' @ Combine (errors errorListener)))), p)
               else
                 (let p1 = p\<lparr>spec := emptySpecification, errs := [], itemFieldStack := []\<rparr>
                  in case Walk EnterRule ExitRule p1 tree of
                       Inl e \<Rightarrow> Inl e
                     | Inr p2 \<Rightarrow> Inr ((Some (spec p2), None), p2))))"

subsection \<open>The listener of \<open>analyzer/spec/spec_parser.go\<close>\<close>

text \<open>
  The second file of package \<open>spec\<close> differs in four places: the quotes are removed
  otherwise, the type descriptor and the default are stored as written, every path is
  built from the top of the stack, and \<open>Parse\<close> pushes an empty root path before the
  walk. Its definitions carry the suffix \<open>_analyzer\<close>. What it prints is not modelled.
\<close>

definition removeStrQuotesAndCleanSpaces_analyzer :: "string \<Rightarrow> error + string" where
  "removeStrQuotesAndCleanSpaces_analyzer str =
     (if HasPrefix str [CHR 0x22, CHR 0x22, CHR 0x22]
      then (case slice str 3 (int (length str) - 3) of
              Inl e \<Rightarrow> Inl e
            | Inr unquoted \<Rightarrow> Inr (ReplaceAllSpaces unquoted))
      else slice str 1 (int (length str) - 1))"

definition EnterFileDeclaration_analyzer ::
  "specParserImpl \<Rightarrow> FileDeclarationContext \<Rightarrow> error + specParserImpl" where
  "EnterFileDeclaration_analyzer p ctx =
     (case removeStrQuotesAndCleanSpaces_analyzer
             (TerminalNode_GetText (FileDeclarationContext.SHORT_STRING ctx)) of
        Inl e \<Rightarrow> Inl e
      | Inr file \<Rightarrow>
          Inr (p\<lparr>spec := (spec p)
                 \<lparr>File := file,
                  FileLocation := terminalLocation (FileDeclarationContext.SHORT_STRING ctx),
                  FileFormat := TerminalNode_GetText (FileDeclarationContext.IDENTIFIER ctx),
                  FileFormatLocation :=
                    terminalLocation (FileDeclarationContext.IDENTIFIER ctx)\<rparr>\<rparr>))"

definition EnterImportItem_analyzer ::
  "specParserImpl \<Rightarrow> ImportItemContext \<Rightarrow> error + specParserImpl" where
  "EnterImportItem_analyzer p ctx =
     (case removeStrQuotesAndCleanSpaces_analyzer
             (TerminalNode_GetText (ImportItemContext.SHORT_STRING ctx)) of
        Inl e \<Rightarrow> Inl e
      | Inr path \<Rightarrow>
          Inr (p\<lparr>spec := (spec p)
                 \<lparr>Imports := (Imports (spec p))
                    (TerminalNode_GetText (ImportItemContext.IDENTIFIER ctx) \<mapsto> path),
                  ImportsLocation := (ImportsLocation (spec p))
                    (TerminalNode_GetText (ImportItemContext.IDENTIFIER ctx) \<mapsto>
                       terminalLocation (ImportItemContext.SHORT_STRING ctx))\<rparr>\<rparr>))"

definition metadataItem_analyzer ::
  "string \<Rightarrow> MetadataItem \<Rightarrow> specParserImpl \<times> itemLocals \<Rightarrow>
   error + specParserImpl \<times> itemLocals" where
  "metadataItem_analyzer field item st =
     (case st of (p, l) \<Rightarrow>
        (case item of
           TypeMetadataContext typeExpr \<Rightarrow>
             if foundType l
             then Inr (p\<lparr>errs := errs p @
                         [Errorf (''duplicate type metadata for field '' @ field)]\<rparr>, l)
             else Inr (p, l\<lparr>foundType := True,
                             fieldSpecification := (fieldSpecification l)
                               \<lparr>FieldType := ParserRuleContext.GetText typeExpr,
                                FieldTypeLocation := ruleLocation typeExpr\<rparr>\<rparr>)
         | OptionalMetadataContext b \<Rightarrow>
             if foundOptional l
             then Inr (p\<lparr>errs := errs p @
                         [Errorf (''duplicate optional metadata for field '' @ field)]\<rparr>, l)
             else (case ParseBool (TerminalNode_GetText b) of
                     None \<Rightarrow>
                       Inl (Panic (''optional must be a bool, found: '' @ TerminalNode_GetText b @
                         ''; this error should have been cought in a previous stage''))
                   | Some optional \<Rightarrow>
                       Inr (p, l\<lparr>foundOptional := True,
                                 fieldSpecification := (fieldSpecification l)
                                   \<lparr>FieldSpec.Optional := optional,
                                    OptionalLocation := terminalLocation b\<rparr>\<rparr>))
         | DefaultMetadataContext primitive \<Rightarrow>
             if foundDefault l
             then Inr (p\<lparr>errs := errs p @
                         [Errorf (''duplicate default metadata for field '' @ field)]\<rparr>, l)
             else Inr (p, l\<lparr>foundDefault := True,
                             fieldSpecification := (fieldSpecification l)
                               \<lparr>Default := ParserRuleContext.GetText primitive,
                                DefaultLocation := ruleLocation primitive\<rparr>\<rparr>)
         | NotesMetadataContext stringExpr \<Rightarrow>
             if foundNotes l
             then Inr (p\<lparr>errs := errs p @
                         [Errorf (''duplicate notes metadata for field '' @ field)]\<rparr>, l)
             else (case removeStrQuotesAndCleanSpaces_analyzer
                          (ParserRuleContext.GetText stringExpr) of
                     Inl e \<Rightarrow> Inl e
                   | Inr n \<Rightarrow>
                       Inr (p, l\<lparr>fieldSpecification := (fieldSpecification l)
                                   \<lparr>Notes := n,
                                    NotesLocation := ruleLocation stringExpr\<rparr>\<rparr>))
         | OtherMetadataContext text \<Rightarrow>
             Inl (Panic (''unknown metadata item: '' @ text @
               ''; this error should have been cought in a previous stage''))))"

fun metadataLoop_analyzer ::
  "string \<Rightarrow> MetadataItem list \<Rightarrow> specParserImpl \<times> itemLocals \<Rightarrow>
   error + specParserImpl \<times> itemLocals" where
  "metadataLoop_analyzer field [] st = Inr st"
| "metadataLoop_analyzer field (item # items) st =
     (case metadataItem_analyzer field item st of
        Inl e \<Rightarrow> Inl e
      | Inr st' \<Rightarrow> metadataLoop_analyzer field items st')"

text \<open>
  \<open>p.itemFieldStack.Peek().(string)\<close>: the type assertion panics on the \<open>nil\<close> that an
  empty stack returns.
\<close>

definition EnterSpecificationItem_analyzer ::
  "specParserImpl \<Rightarrow> SpecificationItemContext \<Rightarrow> error + specParserImpl" where
  "EnterSpecificationItem_analyzer p ctx =
     (case Peek (itemFieldStack p) of
        None \<Rightarrow> Inl RuntimePanic
      | Some parentField \<Rightarrow>
          (let field = parentField @ ''.'' @ ParserRuleContext.GetText (FieldName ctx);
               p1 = p\<lparr>itemFieldStack := Push (itemFieldStack p) field\<rparr>;
               locals = \<lparr>fieldSpecification =
                           newFieldSpec field (ruleLocation (FieldName ctx)),
                         foundType = False, foundDefault = False, foundOptional = False,
                         foundNotes = False\<rparr>
           in case metadataLoop_analyzer field (AllMetadataItem ctx) (p1, locals) of
                Inl e \<Rightarrow> Inl e
              | Inr (p2, l) \<Rightarrow>
                  (let p3 = (if \<not> foundType l
                             then p2\<lparr>errs := errs p2 @
                                    [Errorf (''missing type metadata for field '' @ field)]\<rparr>
                             else p2);
                       fs = foldl appendCheck (fieldSpecification l) (AllCheck ctx)
                   in Inr (p3\<lparr>spec := (spec p3)
                             \<lparr>Fields := Specification.Fields (spec p3) @ [fs]\<rparr>\<rparr>))))"

definition EnterRule_analyzer :: "specParserImpl \<Rightarrow> Ctx \<Rightarrow> error + specParserImpl" where
  "EnterRule_analyzer p ctx =
     (case ctx of
        FileDeclaration c \<Rightarrow> EnterFileDeclaration_analyzer p c
      | ImportItem c \<Rightarrow> EnterImportItem_analyzer p c
      | SpecificationItem c \<Rightarrow> EnterSpecificationItem_analyzer p c
      | OtherContext \<Rightarrow> Inr p)"

definition Parse_analyzer ::
  "specParserImpl \<Rightarrow> (int \<times> int \<times> string) list \<Rightarrow> ParseTree \<Rightarrow>
   error + (Specification option \<times> error option) \<times> specParserImpl" where
  "Parse_analyzer p reports tree =
     (let errorListener = \<lparr>errors = []\<rparr>
      in if length (errors errorListener) > 0
         then Inr ((None, Some (Errorf (''syntax errors: '' @ Combine (errors errorListener)))), p)
         else
           (let errorListener = foldl SyntaxError errorListener reports
            in if length (errors errorListener) > 0
               then Inr ((None,
                          Some (Errorf (''syntax errors: '' @ Combine (errors errorListener)))), p)
               else
                 (let p1 = p\<lparr>spec := emptySpecification, errs := [],
                             itemFieldStack := Push [] []\<rparr>
                  in case Walk EnterRule_analyzer ExitRule p1 tree of
                       Inl e \<Rightarrow> Inl e
                     | Inr p2 \<Rightarrow> Inr ((Some (spec p2), None), p2))))"

text \<open>\<open>NewSpecParser\<close> returns a \<open>specParserImpl\<close> with every field at its zero value.\<close>

definition NewSpecParser :: specParserImpl where
  "NewSpecParser = \<lparr>spec = emptySpecification, itemFieldStack = [], errs = []\<rparr>"

section \<open>The specification's vocabulary\<close>

text \<open>
  The metadata kinds the specification speaks of, and the kind of an item of the parse
  tree.
\<close>

datatype MetadataKind = KType | KOptional | KDefault | KNotes | KOther

fun kindOf :: "MetadataItem \<Rightarrow> MetadataKind" where
  "kindOf (TypeMetadataContext _) = KType"
| "kindOf (OptionalMetadataContext _) = KOptional"
| "kindOf (DefaultMetadataContext _) = KDefault"
| "kindOf (NotesMetadataContext _) = KNotes"
| "kindOf (OtherMetadataContext _) = KOther"

text \<open>
  The type descriptor a field declares, as written: the text of its first type item, and
  the empty text when it has none.
\<close>

fun firstTypeText :: "MetadataItem list \<Rightarrow> string" where
  "firstTypeText [] = []"
| "firstTypeText (TypeMetadataContext typeExpr # items) = ParserRuleContext.GetText typeExpr"
| "firstTypeText (item # items) = firstTypeText items"

text \<open>The name of a kind, as the error messages print it.\<close>

fun kindName :: "MetadataKind \<Rightarrow> string" where
  "kindName KType = ''type''"
| "kindName KOptional = ''optional''"
| "kindName KDefault = ''default''"
| "kindName KNotes = ''notes''"
| "kindName KOther = ''other''"

text \<open>The flag of the loop that stands for a kind.\<close>

fun found :: "itemLocals \<Rightarrow> MetadataKind \<Rightarrow> bool" where
  "found l KType = foundType l"
| "found l KOptional = foundOptional l"
| "found l KDefault = foundDefault l"
| "found l KNotes = foundNotes l"
| "found l KOther = False"

text \<open>
  The dotted path as the specification words it: the parent's path joined with the local
  name by a single separator, and the local name alone when there is no parent.
  \<open>dottedPaths parent t\<close> lists the paths of the fields declared in \<open>t\<close>, in document
  order, below a parent path.
\<close>

definition fieldPath :: "string option \<Rightarrow> string \<Rightarrow> string" where
  "fieldPath parent name = (case parent of None \<Rightarrow> name | Some pp \<Rightarrow> pp @ ''.'' @ name)"

fun dottedPaths :: "string option \<Rightarrow> ParseTree \<Rightarrow> string list" where
  "dottedPaths parent (RuleNode ctx children) =
     (case ctx of
        SpecificationItem c \<Rightarrow>
          fieldPath parent (ParserRuleContext.GetText (FieldName c)) #
          concat (map (dottedPaths
            (Some (fieldPath parent (ParserRuleContext.GetText (FieldName c))))) children)
      | _ \<Rightarrow> concat (map (dottedPaths parent) children))"

text \<open>The paths of the fields a call of \<open>Parse\<close> stored, when it returned a specification.\<close>

definition storedPaths ::
  "error + (Specification option \<times> error option) \<times> specParserImpl \<Rightarrow> string list option" where
  "storedPaths r =
     (case r of
        Inr ((Some s, e), p) \<Rightarrow> Some (map Field (Specification.Fields s))
      | _ \<Rightarrow> None)"

text \<open>
  A listener's enter function keeps track of paths when a specification item pushes and
  stores its path below the top of the stack, and every other rule leaves both alone.
\<close>

definition tracksPaths :: "(specParserImpl \<Rightarrow> Ctx \<Rightarrow> error + specParserImpl) \<Rightarrow> bool" where
  "tracksPaths enter =
     (\<forall>p ctx p1. enter p ctx = Inr p1 \<longrightarrow>
        (case ctx of
           SpecificationItem c \<Rightarrow>
             itemFieldStack p1 =
               fieldPath (Peek (itemFieldStack p)) (ParserRuleContext.GetText (FieldName c)) #
               itemFieldStack p \<and>
             map Field (Specification.Fields (spec p1)) =
               map Field (Specification.Fields (spec p)) @
               [fieldPath (Peek (itemFieldStack p)) (ParserRuleContext.GetText (FieldName c))]
         | _ \<Rightarrow>
             itemFieldStack p1 = itemFieldStack p \<and>
             map Field (Specification.Fields (spec p1)) =
               map Field (Specification.Fields (spec p))))"

text \<open>The object type of the specification's example: \<open>name:string\<close>, and optionally \<open>age:int\<close>.\<close>

definition person :: ObjectDef where
  "person = \<lparr>ObjectDef.Name = ''person'',
     Properties = [\<lparr>PropertyDef.Name = ''name'', Type = ''string'', Optional = False\<rparr>,
                   \<lparr>PropertyDef.Name = ''age'', Type = ''int'', Optional = True\<rparr>]\<rparr>"

section \<open>Example inputs\<close>

text \<open>
  Tokens and one-token rule contexts at a position, and five field declarations: \<open>a\<close>
  with no metadata, \<open>a\<close> with a type, \<open>a\<close> with a type and two notes, \<open>a\<close> with a list
  type, and \<open>b\<close> with a type, which \<open>nestedTree\<close> declares inside \<open>a\<close>.
\<close>

definition tokenAt :: "int \<Rightarrow> int \<Rightarrow> string \<Rightarrow> Token" where
  "tokenAt line column text = \<lparr>GetLine = line, GetColumn = column, GetText = text\<rparr>"

definition oneToken :: "int \<Rightarrow> int \<Rightarrow> string \<Rightarrow> ParserRuleContext" where
  "oneToken line column text =
     \<lparr>GetStart = tokenAt line column text, GetStop = tokenAt line column text, GetText = text\<rparr>"

definition untypedField :: SpecificationItemContext where
  "untypedField = \<lparr>FieldName = oneToken 1 0 ''a'', AllMetadataItem = [], AllCheck = []\<rparr>"

definition typedField :: SpecificationItemContext where
  "typedField = \<lparr>FieldName = oneToken 1 0 ''a'',
     AllMetadataItem = [TypeMetadataContext (oneToken 2 2 ''int'')], AllCheck = []\<rparr>"

definition twoNotes :: SpecificationItemContext where
  "twoNotes = \<lparr>FieldName = oneToken 1 0 ''a'',
     AllMetadataItem = [TypeMetadataContext (oneToken 2 8 ''int''),
                        NotesMetadataContext (oneToken 3 9 [CHR 0x22, CHR ''x'', CHR 0x22]),
                        NotesMetadataContext (oneToken 4 9 [CHR 0x22, CHR ''y'', CHR 0x22])],
     AllCheck = []\<rparr>"

definition listField :: SpecificationItemContext where
  "listField = \<lparr>FieldName = oneToken 1 0 ''a'',
     AllMetadataItem = [TypeMetadataContext (oneToken 2 8 ''list<list<int>>'')],
     AllCheck = []\<rparr>"

definition nestedField :: SpecificationItemContext where
  "nestedField = \<lparr>FieldName = oneToken 3 2 ''b'',
     AllMetadataItem = [TypeMetadataContext (oneToken 4 4 ''int'')], AllCheck = []\<rparr>"

definition nestedTree :: ParseTree where
  "nestedTree = RuleNode OtherContext
     [RuleNode (SpecificationItem typedField) [RuleNode (SpecificationItem nestedField) []]]"

text \<open>
  A TOML parser with nothing in its store, and the headers \<open>[a]\<close> and \<open>[[a]]\<close> on the first
  line of a file.
\<close>

definition emptyStore :: tomlParser where
  "emptyStore = \<lparr>heap = (\<lambda>a. nullNode), lim = 0, configFile = None, stack = [],
     directlyDefined = (\<lambda>key. False), errs = []\<rparr>"

definition tableA :: TableContext where
  "tableA = \<lparr>GetStart = tokenAt 1 0 ''['', GetStop = tokenAt 1 2 '']'', GetText = ''[a]'',
     Key = \<lparr>GetStart = tokenAt 1 1 ''a'', GetStop = tokenAt 1 1 ''a'', GetText = ''a'',
            alternative = Simple_key ''a''\<rparr>\<rparr>"

definition arrayTableA :: TableContext where
  "arrayTableA = \<lparr>GetStart = tokenAt 1 0 ''[['', GetStop = tokenAt 1 3 '']]'', GetText = ''[[a]]'',
     Key = \<lparr>GetStart = tokenAt 1 2 ''a'', GetStop = tokenAt 1 2 ''a'', GetText = ''a'',
            alternative = Simple_key ''a''\<rparr>\<rparr>"

section \<open>Properties\<close>

subsection \<open>Type-descriptor normalisation\<close>

lemma condenseLoop_no_wrapper:
  "\<not> (HasPrefix typeStr ''list<'' \<and> HasSuffix typeStr ''>'') \<Longrightarrow>
   condenseLoop result typeStr = Inr (result @ typeStr)"
  by (subst condenseLoop.simps) auto

lemma wrapper_length:
  assumes p: "HasPrefix s ''list<''" and q: "HasSuffix s ''>''"
  shows "6 \<le> length s"
proof (rule ccontr)
  assume n: "\<not> 6 \<le> length s"
  from p have l: "length ''list<'' \<le> length s"
    and t: "take (length ''list<'') s = ''list<''"
    unfolding HasPrefix_def by blast+
  from l n have "length s = length ''list<''" by simp
  with t have "s = ''list<''" by (metis order_refl take_all)
  with q show False by (simp add: HasSuffix_def)
qed

lemma HasPrefix_list_colon: "HasPrefix (''list:'' @ s) ''list<'' = False"
  by (simp add: HasPrefix_def)

lemma condenseLoop_result:
  "\<exists>r. condenseLoop result typeStr = Inr (result @ r) \<and>
       \<not> (HasPrefix r ''list<'' \<and> HasSuffix r ''>'')"
proof (induction result typeStr rule: condenseLoop.induct)
  case (1 result typeStr)
  show ?case
  proof (cases "HasPrefix typeStr ''list<'' \<and> HasSuffix typeStr ''>''")
    case False
    from condenseLoop_no_wrapper [OF False] False show ?thesis by blast
  next
    case True
    then have len: "6 \<le> length typeStr"
      by (simp add: wrapper_length)
    then obtain t where t: "slice typeStr 5 (int (length typeStr) - 1) = Inr t"
      by (auto simp: slice_def)
    from "1.IH" [OF True t] obtain r where
      r: "condenseLoop (result @ ''list:'') t = Inr ((result @ ''list:'') @ r)"
      and nr: "\<not> (HasPrefix r ''list<'' \<and> HasSuffix r ''>'')"
      by blast
    have "condenseLoop result typeStr = Inr (result @ (''list:'' @ r))"
      using True t r by (subst condenseLoop.simps) simp
    moreover have "\<not> (HasPrefix (''list:'' @ r) ''list<'' \<and> HasSuffix (''list:'' @ r) ''>'')"
      using HasPrefix_list_colon [of r] by blast
    ultimately show ?thesis by blast
  qed
qed

lemma condenseListExpressions_fixpoint:
  "\<exists>r. condenseListExpressions typeStr = Inr r \<and> condenseListExpressions r = Inr r"
proof -
  obtain r where r: "condenseLoop '''' typeStr = Inr ('''' @ r)"
    and nr: "\<not> (HasPrefix r ''list<'' \<and> HasSuffix r ''>'')"
    using condenseLoop_result [of "''''" typeStr] by blast
  have "condenseLoop '''' r = Inr r"
    using condenseLoop_no_wrapper [OF nr, of "''''"] by simp
  with r show ?thesis by (simp add: condenseListExpressions_def)
qed

lemma condense_fix: "condenseListExpressions s = Inr r \<Longrightarrow> condenseListExpressions r = Inr r"
  using condenseListExpressions_fixpoint [of s] by auto

lemma condense_empty: "condenseListExpressions [] = Inr []"
  by (simp add: condenseListExpressions_def condenseLoop.simps HasPrefix_def)

subsection \<open>Custom objects\<close>

lemma GetMethod_get: "GetMethod t ''get'' = tCustomObject_get t"
  by (simp add: GetMethod_def)

lemma GetMethod_other:
  "method \<noteq> ''get'' \<Longrightarrow>
   GetMethod t method = (\<lambda>args. Inl (Errorf (ObjectName t @ '' does not have method '' @ method)))"
  by (simp add: GetMethod_def)

lemma map_of_None_iff: "map_of al k = None \<longleftrightarrow> k \<notin> fst ` set al"
  by (simp add: map_of_eq_None_iff)

text \<open>
  C7. For every custom object and every argument list, \<open>get\<close> returns an error exactly
  when the argument count is not one, or the single argument is not a string value, or
  the object has no field of that name; with one string argument that names a field it
  returns the value stored under that name; and its failures are error values, never
  panics.
\<close>

theorem C7_get_fails_exactly:
  "((\<exists>e. GetMethod t ''get'' args = Inl e) \<longleftrightarrow>
      (length args \<noteq> 1
       \<or> (\<exists>a. args = [a] \<and> (\<forall>s. a \<noteq> TString s))
       \<or> (\<exists>s. args = [TString s] \<and> s \<notin> fst ` set (tCustomObject.Fields t))))
   \<and> (\<forall>s v. args = [TString s] \<and> map_of (tCustomObject.Fields t) s = Some v \<longrightarrow>
          GetMethod t ''get'' args = Inr v)
   \<and> (\<forall>e. GetMethod t ''get'' args = Inl e \<longrightarrow> (\<exists>msg. e = Errorf msg))"
proof (cases args)
  case Nil
  then show ?thesis by (simp add: GetMethod_get tCustomObject_get_def)
next
  case (Cons a as)
  show ?thesis
  proof (cases as)
    case (Cons b bs)
    with \<open>args = a # as\<close> show ?thesis by (simp add: GetMethod_get tCustomObject_get_def)
  next
    case Nil
    with \<open>args = a # as\<close> have args: "args = [a]" by simp
    show ?thesis
    proof (cases a)
      case (TString s)
      show ?thesis
      proof (cases "map_of (tCustomObject.Fields t) s")
        case None
        then have "s \<notin> fst ` set (tCustomObject.Fields t)"
          by (simp add: map_of_None_iff)
        with None args TString show ?thesis
          by (simp add: GetMethod_get tCustomObject_get_def)
      next
        case (Some v)
        then have "s \<in> fst ` set (tCustomObject.Fields t)"
          using map_of_None_iff [of "tCustomObject.Fields t" s] by simp
        with Some args TString show ?thesis
          by (simp add: GetMethod_get tCustomObject_get_def)
      qed
    qed (use args in \<open>simp_all add: GetMethod_get tCustomObject_get_def\<close>)
  qed
qed

theorem C7_witness:
  "GetMethod (tCustomObject ''o'' [(''a'', TInt 3)]) ''get'' [TString ''a''] = Inr (TInt 3)
   \<and> (\<exists>e. GetMethod (tCustomObject ''o'' [(''a'', TInt 3)]) ''get'' [TString ''b''] = Inl e)"
  using C7_get_fails_exactly [of "tCustomObject ''o'' [(''a'', TInt 3)]" "[TString ''a'']"]
    C7_get_fails_exactly [of "tCustomObject ''o'' [(''a'', TInt 3)]" "[TString ''b'']"]
  by simp

text \<open>
  C8. For every custom object, every method name other than \<open>get\<close> and every argument
  list, the callable that \<open>GetMethod\<close> returns yields an error value whose message names
  the object's type name and the requested method.
\<close>

theorem C8_unknown_method:
  "method \<noteq> ''get'' \<Longrightarrow>
   GetMethod t method args = Inl (Errorf (ObjectName t @ '' does not have method '' @ method))"
  by (simp add: GetMethod_other)

theorem C8_witness:
  "GetMethod (tCustomObject ''person'' []) ''size'' [TInt 1] =
     Inl (Errorf ''person does not have method size'')"
  using C8_unknown_method [of "''size''" "tCustomObject ''person'' []" "[TInt 1]"] by simp

lemma customObjectProps_keys:
  "customObjectProps mk objValue props obj = Inr obj' \<Longrightarrow>
   ObjectName obj' = ObjectName obj \<and>
   fst ` set (tCustomObject.Fields obj') \<subseteq>
     fst ` set (tCustomObject.Fields obj) \<union>
     (PropertyDef.Name ` set props \<inter> fst ` set objValue)"
proof (induction props arbitrary: obj)
  case Nil
  then show ?case by simp
next
  case (Cons pd props)
  show ?case
  proof (cases "map_of objValue (PropertyDef.Name pd)")
    case None
    with Cons.prems have "customObjectProps mk objValue props obj = Inr obj'"
      by (simp split: if_splits)
    from Cons.IH [OF this] show ?thesis by auto
  next
    case (Some propNode)
    then have k: "PropertyDef.Name pd \<in> fst ` set objValue"
      by (metis map_of_eq_None_iff option.distinct(1))
    from Some Cons.prems obtain n t where
      "customObjectProps mk objValue props
         (tCustomObject (ObjectName obj)
            (AList.update (PropertyDef.Name pd) t (tCustomObject.Fields obj))) = Inr obj'"
      by (auto split: option.splits sum.splits)
    from Cons.IH [OF this] k show ?thesis
      by (auto simp: dom_update)
  qed
qed

lemma customObjectProps_restrict:
  "(\<And>prop. prop \<in> set props \<Longrightarrow>
       map_of objValue' (PropertyDef.Name prop) = map_of objValue (PropertyDef.Name prop)) \<Longrightarrow>
   customObjectProps mk objValue' props obj = customObjectProps mk objValue props obj"
proof (induction props arbitrary: obj)
  case Nil
  then show ?case by simp
next
  case (Cons pd props)
  then have h: "map_of objValue' (PropertyDef.Name pd) = map_of objValue (PropertyDef.Name pd)"
    and t: "\<And>obj. customObjectProps mk objValue' props obj =
                     customObjectProps mk objValue props obj"
    by simp_all
  show ?case by (simp add: h t split: option.splits sum.splits)
qed

lemma map_of_filter_key:
  "P k \<Longrightarrow> map_of (filter (\<lambda>kv. P (fst kv)) al) k = map_of al k"
  by (induction al) auto

lemma MakeType_spec_string: "MakeType_spec defs ''string'' (VString s) = Inr (TString s)"
  by (simp add: MakeType_spec.simps)

lemma MakeType_spec_int_string: "MakeType_spec defs ''int'' (VString s) = Inl (TypeMismatch ''int'')"
  by (simp add: MakeType_spec.simps)

text \<open>
  C10. For every \<open>MakeType\<close>, object definition and source map: an object that
  \<open>customObjectFactory\<close> returns carries the definition's name, and each key of its
  fields is the name of a declared property and a key of the source map; and removing
  from the source map the keys that no property declares changes neither the object nor
  the error returned.
\<close>

theorem C10_only_declared_keys:
  "(\<forall>object. customObjectFactory mk objValue d = Inr object \<longrightarrow>
      (\<exists>t. object = TObject t \<and> ObjectName t = ObjectDef.Name d \<and>
           fst ` set (tCustomObject.Fields t) \<subseteq>
             PropertyDef.Name ` set (Properties d) \<inter> fst ` set objValue))
   \<and> customObjectFactory mk
        (filter (\<lambda>kv. fst kv \<in> PropertyDef.Name ` set (Properties d)) objValue) d =
      customObjectFactory mk objValue d"
proof (intro conjI allI impI)
  fix object
  assume a: "customObjectFactory mk objValue d = Inr object"
  then obtain t where t: "customObjectProps mk objValue (Properties d)
      (tCustomObject (ObjectDef.Name d) []) = Inr t" and o: "object = TObject t"
    by (auto simp: customObjectFactory_def split: sum.splits)
  from customObjectProps_keys [OF t] o
  show "\<exists>t. object = TObject t \<and> ObjectName t = ObjectDef.Name d \<and>
           fst ` set (tCustomObject.Fields t) \<subseteq>
             PropertyDef.Name ` set (Properties d) \<inter> fst ` set objValue"
    by simp
next
  have "customObjectProps mk
          (filter (\<lambda>kv. fst kv \<in> PropertyDef.Name ` set (Properties d)) objValue)
          (Properties d) (tCustomObject (ObjectDef.Name d) []) =
        customObjectProps mk objValue (Properties d) (tCustomObject (ObjectDef.Name d) [])"
    by (rule customObjectProps_restrict)
       (rule map_of_filter_key [where P = "\<lambda>k. k \<in> PropertyDef.Name ` set (Properties d)"],
        simp)
  then show "customObjectFactory mk
        (filter (\<lambda>kv. fst kv \<in> PropertyDef.Name ` set (Properties d)) objValue) d =
      customObjectFactory mk objValue d"
    by (simp add: customObjectFactory_def)
qed

theorem C10_witness:
  "customObjectFactory (MakeType_spec Map.empty)
     [(''name'', Some (Node FString FNull (VString ''a'') zeroLocation zeroLocation)),
      (''extra'', Some (Node FInt FNull (VInt 1) zeroLocation zeroLocation))] person =
   Inr (TObject (tCustomObject ''person'' [(''name'', TString ''a'')]))
   \<and> fst ` set [(''name'', TString ''a'')] \<subseteq> PropertyDef.Name ` set (Properties person)"
  using C10_only_declared_keys [of "MakeType_spec Map.empty"
     "[(''name'', Some (Node FString FNull (VString ''a'') zeroLocation zeroLocation)),
      (''extra'', Some (Node FInt FNull (VInt 1) zeroLocation zeroLocation))]" person]
  by (simp add: customObjectFactory_def person_def MakeType_spec_string)

text \<open>
  C6. For the object type \<open>person\<close> (required \<open>name:string\<close>, optional \<open>age:int\<close>), with
  \<open>MakeType\<close> as the specification describes it: the map with \<open>name\<close> alone gives an
  object whose fields hold \<open>name\<close> and not \<open>age\<close>; the empty map gives the error
  \<open>missing required property name\<close>; and the map whose \<open>age\<close> is the string \<open>x\<close> gives the
  type mismatch that \<open>MakeType\<close> reports for the descriptor \<open>int\<close>.
\<close>

theorem C6_person:
  "customObjectFactory (MakeType_spec defs)
     [(''name'', Some (Node ty aty (VString ''a'') nl vl))] person =
     Inr (TObject (tCustomObject ''person'' [(''name'', TString ''a'')]))
   \<and> map_of [(''name'', TString ''a'')] ''age'' = None
   \<and> customObjectFactory (MakeType_spec defs) [] person =
     Inl (Errorf ''missing required property name'')
   \<and> customObjectFactory (MakeType_spec defs)
     [(''name'', Some (Node ty aty (VString ''a'') nl vl)),
      (''age'', Some (Node ty' aty' (VString ''x'') nl' vl'))] person =
     Inl (TypeMismatch ''int'')"
  by (simp add: customObjectFactory_def person_def MakeType_spec_string MakeType_spec_int_string)

subsection \<open>The metadata loop\<close>

lemma metadataItem_frame:
  assumes "metadataItem f item (p, l) = Inr (p', l')"
  shows "spec p' = spec p" "itemFieldStack p' = itemFieldStack p"
    "Field (fieldSpecification l') = Field (fieldSpecification l)"
    "foundType l' = (foundType l \<or> kindOf item = KType)"
    "\<exists>es. errs p' = errs p @ es"
  using assms
  by (cases item; auto simp: metadataItem_def split: if_splits sum.splits option.splits)+

lemma metadataItem_fresh:
  assumes "metadataItem f item (p, l) = Inr (p', l')" "\<not> found l (kindOf item)"
  shows "errs p' = errs p" "\<And>k. k \<noteq> kindOf item \<Longrightarrow> found l' k = found l k"
proof -
  show "errs p' = errs p"
    using assms
    by (cases item; auto simp: metadataItem_def split: if_splits sum.splits option.splits)
  fix k assume "k \<noteq> kindOf item" 
  then show "found l' k = found l k"
    using assms
    by (cases item; cases k; auto simp: metadataItem_def split: if_splits sum.splits option.splits)
qed

lemma metadataLoop_frame:
  "metadataLoop f items (p, l) = Inr (p', l') \<Longrightarrow>
   spec p' = spec p \<and> itemFieldStack p' = itemFieldStack p \<and>
   Field (fieldSpecification l') = Field (fieldSpecification l) \<and>
   foundType l' = (foundType l \<or> KType \<in> kindOf ` set items) \<and>
   (\<exists>es. errs p' = errs p @ es)"
proof (induction items arbitrary: p l)
  case Nil
  then show ?case by simp
next
  case (Cons item items)
  from Cons.prems obtain p1 l1 where
    s: "metadataItem f item (p, l) = Inr (p1, l1)"
    and r: "metadataLoop f items (p1, l1) = Inr (p', l')"
    by (auto split: sum.splits)
  from metadataItem_frame [OF s] Cons.IH [OF r] show ?case by auto
qed

lemma metadataLoop_fresh:
  "metadataLoop f items (p, l) = Inr (p', l') \<Longrightarrow> distinct (map kindOf items) \<Longrightarrow>
   (\<forall>item \<in> set items. \<not> found l (kindOf item)) \<Longrightarrow> errs p' = errs p"
proof (induction items arbitrary: p l)
  case Nil
  then show ?case by simp
next
  case (Cons item items)
  from Cons.prems(1) obtain p1 l1 where
    s: "metadataItem f item (p, l) = Inr (p1, l1)"
    and r: "metadataLoop f items (p1, l1) = Inr (p', l')"
    by (auto split: sum.splits)
  from Cons.prems have nf: "\<not> found l (kindOf item)" and d: "distinct (map kindOf items)"
    and ni: "kindOf item \<notin> kindOf ` set items" by auto
  have "\<forall>i \<in> set items. \<not> found l1 (kindOf i)"
  proof
    fix i assume i: "i \<in> set items"
    with ni have "kindOf i \<noteq> kindOf item" by (metis imageI)
    from metadataItem_fresh(2) [OF s nf this] Cons.prems(3) i show "\<not> found l1 (kindOf i)"
      by simp
  qed
  from Cons.IH [OF r d this] metadataItem_fresh(1) [OF s nf] show ?case by simp
qed

lemma metadataItemA_frame:
  assumes "metadataItem_analyzer f item (p, l) = Inr (p', l')"
  shows "spec p' = spec p" "itemFieldStack p' = itemFieldStack p"
    "Field (fieldSpecification l') = Field (fieldSpecification l)"
    "foundType l' = (foundType l \<or> kindOf item = KType)"
    "\<exists>es. errs p' = errs p @ es"
  using assms
  by (cases item; auto simp: metadataItem_analyzer_def split: if_splits sum.splits option.splits)+

lemma metadataItemA_fresh:
  assumes "metadataItem_analyzer f item (p, l) = Inr (p', l')" "\<not> found l (kindOf item)"
  shows "errs p' = errs p" "\<And>k. k \<noteq> kindOf item \<Longrightarrow> found l' k = found l k"
proof -
  show "errs p' = errs p"
    using assms
    by (cases item; auto simp: metadataItem_analyzer_def split: if_splits sum.splits option.splits)
  fix k assume "k \<noteq> kindOf item" 
  then show "found l' k = found l k"
    using assms
    by (cases item; cases k; auto simp: metadataItem_analyzer_def split: if_splits sum.splits option.splits)
qed

lemma metadataLoopA_frame:
  "metadataLoop_analyzer f items (p, l) = Inr (p', l') \<Longrightarrow>
   spec p' = spec p \<and> itemFieldStack p' = itemFieldStack p \<and>
   Field (fieldSpecification l') = Field (fieldSpecification l) \<and>
   foundType l' = (foundType l \<or> KType \<in> kindOf ` set items) \<and>
   (\<exists>es. errs p' = errs p @ es)"
proof (induction items arbitrary: p l)
  case Nil
  then show ?case by simp
next
  case (Cons item items)
  from Cons.prems obtain p1 l1 where
    s: "metadataItem_analyzer f item (p, l) = Inr (p1, l1)"
    and r: "metadataLoop_analyzer f items (p1, l1) = Inr (p', l')"
    by (auto split: sum.splits)
  from metadataItemA_frame [OF s] Cons.IH [OF r] show ?case by auto
qed

lemma metadataLoopA_fresh:
  "metadataLoop_analyzer f items (p, l) = Inr (p', l') \<Longrightarrow> distinct (map kindOf items) \<Longrightarrow>
   (\<forall>item \<in> set items. \<not> found l (kindOf item)) \<Longrightarrow> errs p' = errs p"
proof (induction items arbitrary: p l)
  case Nil
  then show ?case by simp
next
  case (Cons item items)
  from Cons.prems(1) obtain p1 l1 where
    s: "metadataItem_analyzer f item (p, l) = Inr (p1, l1)"
    and r: "metadataLoop_analyzer f items (p1, l1) = Inr (p', l')"
    by (auto split: sum.splits)
  from Cons.prems have nf: "\<not> found l (kindOf item)" and d: "distinct (map kindOf items)"
    and ni: "kindOf item \<notin> kindOf ` set items" by auto
  have "\<forall>i \<in> set items. \<not> found l1 (kindOf i)"
  proof
    fix i assume i: "i \<in> set items"
    with ni have "kindOf i \<noteq> kindOf item" by (metis imageI)
    from metadataItemA_fresh(2) [OF s nf this] Cons.prems(3) i show "\<not> found l1 (kindOf i)"
      by simp
  qed
  from Cons.IH [OF r d this] metadataItemA_fresh(1) [OF s nf] show ?case by simp
qed

lemma metadataItem_duplicate:
  assumes "found l (kindOf item)"
  shows "metadataItem f item (p, l) =
           Inr (p\<lparr>errs := errs p @
                  [Errorf (''duplicate '' @ kindName (kindOf item) @ '' metadata for field '' @ f)]\<rparr>, l)"
    and "metadataItem_analyzer f item (p, l) =
           Inr (p\<lparr>errs := errs p @
                  [Errorf (''duplicate '' @ kindName (kindOf item) @ '' metadata for field '' @ f)]\<rparr>, l)"
  using assms by (cases item; simp add: metadataItem_def metadataItem_analyzer_def)+

lemma metadataItem_first:
  assumes "\<not> found l (kindOf item)" "kindOf item \<in> {KType, KOptional, KDefault}"
  shows "metadataItem f item (p, l) = Inr (p', l') \<Longrightarrow> p' = p \<and> found l' (kindOf item)"
    and "metadataItem_analyzer f item (p, l) = Inr (p', l') \<Longrightarrow> p' = p \<and> found l' (kindOf item)"
  using assms
  by (cases item; auto simp: metadataItem_def metadataItem_analyzer_def
      split: sum.splits option.splits)+

lemma metadataItem_foundNotes:
  "metadataItem f item (p, l) = Inr (p1, l1) \<Longrightarrow> foundNotes l1 = foundNotes l"
  "metadataItem_analyzer f item (p, l) = Inr (p1, l1) \<Longrightarrow> foundNotes l1 = foundNotes l"
  by (cases item; auto simp: metadataItem_def metadataItem_analyzer_def
      split: if_splits sum.splits option.splits)+

lemma foundNotes_unchanged:
  "metadataLoop f items (p, l) = Inr (p', l') \<Longrightarrow> foundNotes l' = foundNotes l"
proof (induction items arbitrary: p l)
  case Nil
  then show ?case by simp
next
  case (Cons item items)
  then obtain p1 l1 where s: "metadataItem f item (p, l) = Inr (p1, l1)"
    and r: "metadataLoop f items (p1, l1) = Inr (p', l')"
    by (auto split: sum.splits)
  from metadataItem_foundNotes(1) [OF s] Cons.IH [OF r] show ?case by simp
qed

lemma foundNotes_unchanged_analyzer:
  "metadataLoop_analyzer f items (p, l) = Inr (p', l') \<Longrightarrow> foundNotes l' = foundNotes l"
proof (induction items arbitrary: p l)
  case Nil
  then show ?case by simp
next
  case (Cons item items)
  then obtain p1 l1 where s: "metadataItem_analyzer f item (p, l) = Inr (p1, l1)"
    and r: "metadataLoop_analyzer f items (p1, l1) = Inr (p', l')"
    by (auto split: sum.splits)
  from metadataItem_foundNotes(2) [OF s] Cons.IH [OF r] show ?case by simp
qed

lemma metadataItem_FieldType:
  assumes "metadataItem f item (p, l) = Inr (p', l')"
    and "condenseListExpressions (FieldType (fieldSpecification l)) =
           Inr (FieldType (fieldSpecification l))"
  shows "condenseListExpressions (FieldType (fieldSpecification l')) =
           Inr (FieldType (fieldSpecification l'))"
  using assms
  by (cases item; auto simp: metadataItem_def condense_fix
      split: if_splits sum.splits option.splits)

lemma metadataLoop_FieldType:
  "metadataLoop f items (p, l) = Inr (p', l') \<Longrightarrow>
   condenseListExpressions (FieldType (fieldSpecification l)) =
     Inr (FieldType (fieldSpecification l)) \<Longrightarrow>
   condenseListExpressions (FieldType (fieldSpecification l')) =
     Inr (FieldType (fieldSpecification l'))"
proof (induction items arbitrary: p l)
  case Nil
  then show ?case by simp
next
  case (Cons item items)
  from Cons.prems(1) obtain p1 l1 where
    s: "metadataItem f item (p, l) = Inr (p1, l1)"
    and r: "metadataLoop f items (p1, l1) = Inr (p', l')"
    by (auto split: sum.splits)
  from Cons.IH [OF r metadataItem_FieldType [OF s Cons.prems(2)]] show ?case .
qed

lemma foldl_appendCheck_FieldType: "FieldType (foldl appendCheck fs cs) = FieldType fs"
  by (induction cs arbitrary: fs) (simp_all add: appendCheck_def)

subsection \<open>Entering a specification item\<close>

lemma foldl_appendCheck_Field: "Field (foldl appendCheck fs cs) = Field fs"
  by (induction cs arbitrary: fs) (simp_all add: appendCheck_def)

lemma EnterSpecificationItem_unfold:
  assumes "EnterSpecificationItem p ctx = Inr p'"
  obtains p2 l where
    "metadataLoop
       (fieldPath (Peek (itemFieldStack p)) (ParserRuleContext.GetText (FieldName ctx)))
       (AllMetadataItem ctx)
       (p\<lparr>itemFieldStack := Push (itemFieldStack p)
            (fieldPath (Peek (itemFieldStack p)) (ParserRuleContext.GetText (FieldName ctx)))\<rparr>,
        \<lparr>fieldSpecification =
           newFieldSpec
             (fieldPath (Peek (itemFieldStack p)) (ParserRuleContext.GetText (FieldName ctx)))
             (ruleLocation (FieldName ctx)),
         foundType = False, foundDefault = False, foundOptional = False,
         foundNotes = False\<rparr>) = Inr (p2, l)"
    "p' = (if \<not> foundType l
           then p2\<lparr>errs := errs p2 @
                  [Errorf (''missing type metadata for field '' @
                     fieldPath (Peek (itemFieldStack p))
                       (ParserRuleContext.GetText (FieldName ctx)))]\<rparr>
           else p2)
          \<lparr>spec := (spec p2)
             \<lparr>Fields := Specification.Fields (spec p2) @
                [foldl appendCheck (fieldSpecification l) (AllCheck ctx)]\<rparr>\<rparr>"
proof -
  define fieldName where
    "fieldName = fieldPath (Peek (itemFieldStack p)) (ParserRuleContext.GetText (FieldName ctx))"
  have fn: "(if Len (itemFieldStack p) \<noteq> 0
            then (case Peek (itemFieldStack p) of
                    None \<Rightarrow> Inl RuntimePanic
                  | Some parentField \<Rightarrow>
                      Inr (parentField @ ''.'' @ ParserRuleContext.GetText (FieldName ctx)))
            else Inr (ParserRuleContext.GetText (FieldName ctx))) = Inr fieldName"
    by (cases "itemFieldStack p") (simp_all add: fieldName_def fieldPath_def Len_def Peek_def)
  from assms that show thesis
    unfolding EnterSpecificationItem_def fn fieldName_def [symmetric]
    by (auto simp: Let_def split: sum.splits if_splits)
qed

lemma EnterSpecificationItem_result:
  assumes "EnterSpecificationItem p ctx = Inr p'"
  shows "\<exists>fs es.
     Field fs = fieldPath (Peek (itemFieldStack p)) (ParserRuleContext.GetText (FieldName ctx))
     \<and> itemFieldStack p' = Field fs # itemFieldStack p
     \<and> Specification.Fields (spec p') = Specification.Fields (spec p) @ [fs]
     \<and> errs p' = errs p @ es @
         (if KType \<in> kindOf ` set (AllMetadataItem ctx) then []
          else [Errorf (''missing type metadata for field '' @ Field fs)])
     \<and> (distinct (map kindOf (AllMetadataItem ctx)) \<longrightarrow> es = [])"
proof -
  define fieldName where
    "fieldName = fieldPath (Peek (itemFieldStack p)) (ParserRuleContext.GetText (FieldName ctx))"
  define p1 where "p1 = p\<lparr>itemFieldStack := Push (itemFieldStack p) fieldName\<rparr>"
  define l0 where
    "l0 = \<lparr>fieldSpecification = newFieldSpec fieldName (ruleLocation (FieldName ctx)),
           foundType = False, foundDefault = False, foundOptional = False,
           foundNotes = False\<rparr>"
  from EnterSpecificationItem_unfold [OF assms] obtain p2 l where
    loop: "metadataLoop fieldName (AllMetadataItem ctx) (p1, l0) = Inr (p2, l)"
    and p': "p' = (if \<not> foundType l
                   then p2\<lparr>errs := errs p2 @
                          [Errorf (''missing type metadata for field '' @ fieldName)]\<rparr>
                   else p2)
                  \<lparr>spec := (spec p2)
                     \<lparr>Fields := Specification.Fields (spec p2) @
                        [foldl appendCheck (fieldSpecification l) (AllCheck ctx)]\<rparr>\<rparr>"
    unfolding fieldName_def p1_def l0_def by blast
  from metadataLoop_frame [OF loop] obtain es where
    fr: "spec p2 = spec p1" "itemFieldStack p2 = itemFieldStack p1"
      "Field (fieldSpecification l) = fieldName"
      "foundType l = (KType \<in> kindOf ` set (AllMetadataItem ctx))"
      "errs p2 = errs p1 @ es"
    by (auto simp: l0_def newFieldSpec_def)
  have fresh: "distinct (map kindOf (AllMetadataItem ctx)) \<longrightarrow> es = []"
  proof
    assume "distinct (map kindOf (AllMetadataItem ctx))"
    moreover have "\<forall>item \<in> set (AllMetadataItem ctx). \<not> found l0 (kindOf item)"
    proof
      fix item show "\<not> found l0 (kindOf item)" by (cases "kindOf item") (simp_all add: l0_def)
    qed
    ultimately have "errs p2 = errs p1" using metadataLoop_fresh [OF loop] by blast
    with fr(5) show "es = []" by simp
  qed
  let ?fs = "foldl appendCheck (fieldSpecification l) (AllCheck ctx)"
  have "Field ?fs = fieldName" by (simp add: foldl_appendCheck_Field fr)
  moreover have "itemFieldStack p' = fieldName # itemFieldStack p"
    by (simp add: p' fr p1_def Push_def)
  moreover have "Specification.Fields (spec p') = Specification.Fields (spec p) @ [?fs]"
    by (simp add: p' fr p1_def)
  moreover have "errs p' = errs p @ es @
         (if KType \<in> kindOf ` set (AllMetadataItem ctx) then []
          else [Errorf (''missing type metadata for field '' @ fieldName)])"
    by (simp add: p' fr p1_def)
  ultimately show ?thesis using fresh fieldName_def by metis
qed

lemma EnterSpecificationItem_analyzer_unfold:
  assumes "EnterSpecificationItem_analyzer p ctx = Inr p'"
  obtains p2 l where
    "metadataLoop_analyzer
       (fieldPath (Peek (itemFieldStack p)) (ParserRuleContext.GetText (FieldName ctx)))
       (AllMetadataItem ctx)
       (p\<lparr>itemFieldStack := Push (itemFieldStack p)
            (fieldPath (Peek (itemFieldStack p)) (ParserRuleContext.GetText (FieldName ctx)))\<rparr>,
        \<lparr>fieldSpecification =
           newFieldSpec
             (fieldPath (Peek (itemFieldStack p)) (ParserRuleContext.GetText (FieldName ctx)))
             (ruleLocation (FieldName ctx)),
         foundType = False, foundDefault = False, foundOptional = False,
         foundNotes = False\<rparr>) = Inr (p2, l)"
    "p' = (if \<not> foundType l
           then p2\<lparr>errs := errs p2 @
                  [Errorf (''missing type metadata for field '' @
                     fieldPath (Peek (itemFieldStack p))
                       (ParserRuleContext.GetText (FieldName ctx)))]\<rparr>
           else p2)
          \<lparr>spec := (spec p2)
             \<lparr>Fields := Specification.Fields (spec p2) @
                [foldl appendCheck (fieldSpecification l) (AllCheck ctx)]\<rparr>\<rparr>"
proof -
  define fieldName where
    "fieldName = fieldPath (Peek (itemFieldStack p)) (ParserRuleContext.GetText (FieldName ctx))"
  from assms obtain parentField where pk: "Peek (itemFieldStack p) = Some parentField"
    by (auto simp: EnterSpecificationItem_analyzer_def split: option.splits)
  then have fn: "fieldName = parentField @ ''.'' @ ParserRuleContext.GetText (FieldName ctx)"
    by (simp add: fieldName_def fieldPath_def)
  note th = that [folded fieldName_def]
  from assms have "(case Inr fieldName of Inl e \<Rightarrow> Inl e | Inr field \<Rightarrow>
      (let p1 = p\<lparr>itemFieldStack := Push (itemFieldStack p) field\<rparr>;
               locals = \<lparr>fieldSpecification =
                           newFieldSpec field (ruleLocation (FieldName ctx)),
                         foundType = False, foundDefault = False, foundOptional = False,
                         foundNotes = False\<rparr>
           in case metadataLoop_analyzer field (AllMetadataItem ctx) (p1, locals) of
                Inl e \<Rightarrow> Inl e
              | Inr (p2, l) \<Rightarrow>
                  (let p3 = (if \<not> foundType l
                             then p2\<lparr>errs := errs p2 @
                                    [Errorf (''missing type metadata for field '' @ field)]\<rparr>
                             else p2);
                       fs = foldl appendCheck (fieldSpecification l) (AllCheck ctx)
                   in Inr (p3\<lparr>spec := (spec p3)
                             \<lparr>Fields := Specification.Fields (spec p3) @ [fs]\<rparr>\<rparr>)))) = Inr p'"
    unfolding EnterSpecificationItem_analyzer_def pk option.case fn by (simp add: Let_def)
  with th show thesis
    by (auto simp: Let_def split: sum.splits if_splits)
qed

lemma EnterSpecificationItem_analyzer_result:
  assumes "EnterSpecificationItem_analyzer p ctx = Inr p'"
  shows "\<exists>fs es.
     Field fs = fieldPath (Peek (itemFieldStack p)) (ParserRuleContext.GetText (FieldName ctx))
     \<and> itemFieldStack p' = Field fs # itemFieldStack p
     \<and> Specification.Fields (spec p') = Specification.Fields (spec p) @ [fs]
     \<and> errs p' = errs p @ es @
         (if KType \<in> kindOf ` set (AllMetadataItem ctx) then []
          else [Errorf (''missing type metadata for field '' @ Field fs)])
     \<and> (distinct (map kindOf (AllMetadataItem ctx)) \<longrightarrow> es = [])"
proof -
  define fieldName where
    "fieldName = fieldPath (Peek (itemFieldStack p)) (ParserRuleContext.GetText (FieldName ctx))"
  define p1 where "p1 = p\<lparr>itemFieldStack := Push (itemFieldStack p) fieldName\<rparr>"
  define l0 where
    "l0 = \<lparr>fieldSpecification = newFieldSpec fieldName (ruleLocation (FieldName ctx)),
           foundType = False, foundDefault = False, foundOptional = False,
           foundNotes = False\<rparr>"
  from EnterSpecificationItem_analyzer_unfold [OF assms] obtain p2 l where
    loop: "metadataLoop_analyzer fieldName (AllMetadataItem ctx) (p1, l0) = Inr (p2, l)"
    and p': "p' = (if \<not> foundType l
                   then p2\<lparr>errs := errs p2 @
                          [Errorf (''missing type metadata for field '' @ fieldName)]\<rparr>
                   else p2)
                  \<lparr>spec := (spec p2)
                     \<lparr>Fields := Specification.Fields (spec p2) @
                        [foldl appendCheck (fieldSpecification l) (AllCheck ctx)]\<rparr>\<rparr>"
    unfolding fieldName_def p1_def l0_def by blast
  from metadataLoopA_frame [OF loop] obtain es where
    fr: "spec p2 = spec p1" "itemFieldStack p2 = itemFieldStack p1"
      "Field (fieldSpecification l) = fieldName"
      "foundType l = (KType \<in> kindOf ` set (AllMetadataItem ctx))"
      "errs p2 = errs p1 @ es"
    by (auto simp: l0_def newFieldSpec_def)
  have fresh: "distinct (map kindOf (AllMetadataItem ctx)) \<longrightarrow> es = []"
  proof
    assume "distinct (map kindOf (AllMetadataItem ctx))"
    moreover have "\<forall>item \<in> set (AllMetadataItem ctx). \<not> found l0 (kindOf item)"
    proof
      fix item show "\<not> found l0 (kindOf item)" by (cases "kindOf item") (simp_all add: l0_def)
    qed
    ultimately have "errs p2 = errs p1" using metadataLoopA_fresh [OF loop] by blast
    with fr(5) show "es = []" by simp
  qed
  let ?fs = "foldl appendCheck (fieldSpecification l) (AllCheck ctx)"
  have "Field ?fs = fieldName" by (simp add: foldl_appendCheck_Field fr)
  moreover have "itemFieldStack p' = fieldName # itemFieldStack p"
    by (simp add: p' fr p1_def Push_def)
  moreover have "Specification.Fields (spec p') = Specification.Fields (spec p) @ [?fs]"
    by (simp add: p' fr p1_def)
  moreover have "errs p' = errs p @ es @
         (if KType \<in> kindOf ` set (AllMetadataItem ctx) then []
          else [Errorf (''missing type metadata for field '' @ fieldName)])"
    by (simp add: p' fr p1_def)
  ultimately show ?thesis using fresh fieldName_def by metis
qed

lemma EnterSpecificationItem_FieldType:
  assumes "EnterSpecificationItem p ctx = Inr p'"
  shows "condenseListExpressions (FieldType (last (Specification.Fields (spec p')))) =
           Inr (FieldType (last (Specification.Fields (spec p'))))"
proof -
  define fieldName where
    "fieldName = fieldPath (Peek (itemFieldStack p)) (ParserRuleContext.GetText (FieldName ctx))"
  define p1 where "p1 = p\<lparr>itemFieldStack := Push (itemFieldStack p) fieldName\<rparr>"
  define l0 where
    "l0 = \<lparr>fieldSpecification = newFieldSpec fieldName (ruleLocation (FieldName ctx)),
           foundType = False, foundDefault = False, foundOptional = False,
           foundNotes = False\<rparr>"
  from EnterSpecificationItem_unfold [OF assms] obtain p2 l where
    loop: "metadataLoop fieldName (AllMetadataItem ctx) (p1, l0) = Inr (p2, l)"
    and p': "p' = (if \<not> foundType l
                   then p2\<lparr>errs := errs p2 @
                          [Errorf (''missing type metadata for field '' @ fieldName)]\<rparr>
                   else p2)
                  \<lparr>spec := (spec p2)
                     \<lparr>Fields := Specification.Fields (spec p2) @
                        [foldl appendCheck (fieldSpecification l) (AllCheck ctx)]\<rparr>\<rparr>"
    unfolding fieldName_def p1_def l0_def by blast
  have "condenseListExpressions (FieldType (fieldSpecification l0)) =
          Inr (FieldType (fieldSpecification l0))"
    by (simp add: l0_def newFieldSpec_def condense_empty)
  from metadataLoop_FieldType [OF loop this] show ?thesis
    by (simp add: p' foldl_appendCheck_FieldType)
qed

lemma firstTypeText_no_type: "KType \<notin> kindOf ` set items \<Longrightarrow> firstTypeText items = []"
  by (induction items rule: firstTypeText.induct) auto

lemma firstTypeText_skip: "kindOf item \<noteq> KType \<Longrightarrow> firstTypeText (item # items) = firstTypeText items"
  by (cases item) auto

lemma metadataItem_analyzer_type:
  assumes "metadataItem_analyzer f item (p, l) = Inr (p', l')"
  shows "foundType l \<Longrightarrow> FieldType (fieldSpecification l') = FieldType (fieldSpecification l)"
    and "kindOf item \<noteq> KType \<Longrightarrow>
           FieldType (fieldSpecification l') = FieldType (fieldSpecification l)"
    and "\<not> foundType l \<Longrightarrow> kindOf item = KType \<Longrightarrow>
           FieldType (fieldSpecification l') = firstTypeText (item # items)"
  using assms
  by (cases item; auto simp: metadataItem_analyzer_def split: if_splits sum.splits option.splits)+

lemma metadataLoop_analyzer_type:
  "metadataLoop_analyzer f items (p, l) = Inr (p', l') \<Longrightarrow>
   FieldType (fieldSpecification l') =
     (if foundType l \<or> KType \<notin> kindOf ` set items then FieldType (fieldSpecification l)
      else firstTypeText items)"
proof (induction items arbitrary: p l)
  case Nil
  then show ?case by simp
next
  case (Cons item items)
  from Cons.prems obtain p1 l1 where
    s: "metadataItem_analyzer f item (p, l) = Inr (p1, l1)"
    and r: "metadataLoop_analyzer f items (p1, l1) = Inr (p', l')"
    by (auto split: sum.splits)
  note ih = Cons.IH [OF r]
  note ft = metadataItemA_frame(4) [OF s]
  show ?case
  proof (cases "foundType l")
    case True
    with ft ih metadataItem_analyzer_type(1) [OF s] show ?thesis by simp
  next
    case False
    show ?thesis
    proof (cases "kindOf item = KType")
      case True
      with False ft ih metadataItem_analyzer_type(3) [OF s, of items] show ?thesis by simp
    next
      case nt: False
      with False ft ih metadataItem_analyzer_type(2) [OF s] firstTypeText_skip [of item items]
      show ?thesis by simp
    qed
  qed
qed

lemma EnterSpecificationItem_analyzer_FieldType:
  assumes "EnterSpecificationItem_analyzer p ctx = Inr p'"
  shows "FieldType (last (Specification.Fields (spec p'))) = firstTypeText (AllMetadataItem ctx)"
proof -
  define fieldName where
    "fieldName = fieldPath (Peek (itemFieldStack p)) (ParserRuleContext.GetText (FieldName ctx))"
  define p1 where "p1 = p\<lparr>itemFieldStack := Push (itemFieldStack p) fieldName\<rparr>"
  define l0 where
    "l0 = \<lparr>fieldSpecification = newFieldSpec fieldName (ruleLocation (FieldName ctx)),
           foundType = False, foundDefault = False, foundOptional = False,
           foundNotes = False\<rparr>"
  from EnterSpecificationItem_analyzer_unfold [OF assms] obtain p2 l where
    loop: "metadataLoop_analyzer fieldName (AllMetadataItem ctx) (p1, l0) = Inr (p2, l)"
    and p': "p' = (if \<not> foundType l
                   then p2\<lparr>errs := errs p2 @
                          [Errorf (''missing type metadata for field '' @ fieldName)]\<rparr>
                   else p2)
                  \<lparr>spec := (spec p2)
                     \<lparr>Fields := Specification.Fields (spec p2) @
                        [foldl appendCheck (fieldSpecification l) (AllCheck ctx)]\<rparr>\<rparr>"
    unfolding fieldName_def p1_def l0_def by blast
  have z: "FieldType (fieldSpecification l0) = []" "\<not> foundType l0"
    by (simp_all add: l0_def newFieldSpec_def)
  from metadataLoop_analyzer_type [OF loop] z
    firstTypeText_no_type [of "AllMetadataItem ctx"]
  have "FieldType (fieldSpecification l) = firstTypeText (AllMetadataItem ctx)"
    by (cases "KType \<in> kindOf ` set (AllMetadataItem ctx)") simp_all
  then show ?thesis by (simp add: p' foldl_appendCheck_FieldType)
qed

lemma metadataItem_type:
  assumes "metadataItem f item (p, l) = Inr (p', l')"
  shows "foundType l \<Longrightarrow> FieldType (fieldSpecification l') = FieldType (fieldSpecification l)"
    and "kindOf item \<noteq> KType \<Longrightarrow>
           FieldType (fieldSpecification l') = FieldType (fieldSpecification l)"
    and "\<not> foundType l \<Longrightarrow> kindOf item = KType \<Longrightarrow>
           condenseListExpressions (firstTypeText (item # items)) =
             Inr (FieldType (fieldSpecification l'))"
  using assms
  by (cases item; auto simp: metadataItem_def split: if_splits sum.splits option.splits)+

lemma metadataLoop_type:
  "metadataLoop f items (p, l) = Inr (p', l') \<Longrightarrow>
   (if foundType l \<or> KType \<notin> kindOf ` set items
    then FieldType (fieldSpecification l') = FieldType (fieldSpecification l)
    else condenseListExpressions (firstTypeText items) = Inr (FieldType (fieldSpecification l')))"
proof (induction items arbitrary: p l)
  case Nil
  then show ?case by simp
next
  case (Cons item items)
  from Cons.prems obtain p1 l1 where
    s: "metadataItem f item (p, l) = Inr (p1, l1)"
    and r: "metadataLoop f items (p1, l1) = Inr (p', l')"
    by (auto split: sum.splits)
  note ih = Cons.IH [OF r]
  note ft = metadataItem_frame(4) [OF s]
  show ?case
  proof (cases "foundType l")
    case True
    with ft ih metadataItem_type(1) [OF s] show ?thesis by simp
  next
    case False
    show ?thesis
    proof (cases "kindOf item = KType")
      case True
      with False ft ih metadataItem_type(3) [OF s, of items] show ?thesis by simp
    next
      case nt: False
      with False ft ih metadataItem_type(2) [OF s] firstTypeText_skip [of item items]
      show ?thesis by (simp split: if_splits)
    qed
  qed
qed

lemma EnterSpecificationItem_stores_normalised:
  assumes "EnterSpecificationItem p ctx = Inr p'"
  shows "condenseListExpressions (firstTypeText (AllMetadataItem ctx)) =
           Inr (FieldType (last (Specification.Fields (spec p'))))"
proof -
  define fieldName where
    "fieldName = fieldPath (Peek (itemFieldStack p)) (ParserRuleContext.GetText (FieldName ctx))"
  define p1 where "p1 = p\<lparr>itemFieldStack := Push (itemFieldStack p) fieldName\<rparr>"
  define l0 where
    "l0 = \<lparr>fieldSpecification = newFieldSpec fieldName (ruleLocation (FieldName ctx)),
           foundType = False, foundDefault = False, foundOptional = False,
           foundNotes = False\<rparr>"
  from EnterSpecificationItem_unfold [OF assms] obtain p2 l where
    loop: "metadataLoop fieldName (AllMetadataItem ctx) (p1, l0) = Inr (p2, l)"
    and p': "p' = (if \<not> foundType l
                   then p2\<lparr>errs := errs p2 @
                          [Errorf (''missing type metadata for field '' @ fieldName)]\<rparr>
                   else p2)
                  \<lparr>spec := (spec p2)
                     \<lparr>Fields := Specification.Fields (spec p2) @
                        [foldl appendCheck (fieldSpecification l) (AllCheck ctx)]\<rparr>\<rparr>"
    unfolding fieldName_def p1_def l0_def by blast
  have z: "FieldType (fieldSpecification l0) = []" "\<not> foundType l0"
    by (simp_all add: l0_def newFieldSpec_def)
  from metadataLoop_type [OF loop] z firstTypeText_no_type [of "AllMetadataItem ctx"]
    condense_empty
  have "condenseListExpressions (firstTypeText (AllMetadataItem ctx)) =
          Inr (FieldType (fieldSpecification l))"
    by (cases "KType \<in> kindOf ` set (AllMetadataItem ctx)") simp_all
  then show ?thesis by (simp add: p' foldl_appendCheck_FieldType)
qed

subsection \<open>The walk and \<open>Parse\<close>\<close>

lemma ExitRule_result:
  "ExitRule p ctx = Inr p' \<Longrightarrow>
   spec p' = spec p \<and>
   itemFieldStack p' =
     (case ctx of SpecificationItem c \<Rightarrow> Pop (itemFieldStack p) | _ \<Rightarrow> itemFieldStack p)"
  by (cases ctx) (auto simp: ExitRule_def ExitSpecificationItem_def)

lemma Walk_paths:
  "Walk enter exit p t = Inr p' \<Longrightarrow> tracksPaths enter \<Longrightarrow> exit = ExitRule \<Longrightarrow>
     itemFieldStack p' = itemFieldStack p \<and>
     map Field (Specification.Fields (spec p')) =
       map Field (Specification.Fields (spec p)) @ dottedPaths (Peek (itemFieldStack p)) t"
  "WalkChildren enter exit p ts = Inr p' \<Longrightarrow> tracksPaths enter \<Longrightarrow> exit = ExitRule \<Longrightarrow>
     itemFieldStack p' = itemFieldStack p \<and>
     map Field (Specification.Fields (spec p')) =
       map Field (Specification.Fields (spec p)) @
       concat (map (dottedPaths (Peek (itemFieldStack p))) ts)"
proof (induction enter exit p t and enter exit p ts arbitrary: p' and p'
    rule: Walk_WalkChildren.induct)
  case (1 enter exit p ctx children)
  from "1.prems"(1) obtain p1 p2 where
    e: "enter p ctx = Inr p1"
    and w: "WalkChildren enter exit p1 children = Inr p2"
    and x: "exit p2 ctx = Inr p'"
    by (auto split: sum.splits)
  from "1.IH" [OF e w "1.prems"(2,3)] have ih: "itemFieldStack p2 = itemFieldStack p1"
    "map Field (Specification.Fields (spec p2)) =
       map Field (Specification.Fields (spec p1)) @
       concat (map (dottedPaths (Peek (itemFieldStack p1))) children)"
    by simp_all
  from x "1.prems"(3) have ex: "spec p' = spec p2" "itemFieldStack p' =
     (case ctx of SpecificationItem c \<Rightarrow> Pop (itemFieldStack p2) | _ \<Rightarrow> itemFieldStack p2)"
    using ExitRule_result [of p2 ctx p'] by simp_all
  from "1.prems"(2) e have en: "case ctx of
           SpecificationItem c \<Rightarrow>
             itemFieldStack p1 =
               fieldPath (Peek (itemFieldStack p)) (ParserRuleContext.GetText (FieldName c)) #
               itemFieldStack p \<and>
             map Field (Specification.Fields (spec p1)) =
               map Field (Specification.Fields (spec p)) @
               [fieldPath (Peek (itemFieldStack p)) (ParserRuleContext.GetText (FieldName c))]
         | _ \<Rightarrow>
             itemFieldStack p1 = itemFieldStack p \<and>
             map Field (Specification.Fields (spec p1)) =
               map Field (Specification.Fields (spec p))"
    unfolding tracksPaths_def by blast
  show ?case
  proof (cases ctx)
    case (SpecificationItem c)
    with en ih ex show ?thesis by (simp add: Pop_def Peek_def)
  qed (use en ih ex in simp_all)
next
  case (2 enter exit p)
  then show ?case by simp
next
  case (3 enter exit p t ts)
  from "3.prems"(1) obtain p1 where
    a: "Walk enter exit p t = Inr p1"
    and b: "WalkChildren enter exit p1 ts = Inr p'"
    by (auto split: sum.splits)
  from "3.IH"(1) [OF a "3.prems"(2,3)] "3.IH"(2) [OF a b "3.prems"(2,3)]
  show ?case by simp
qed

lemma removeStr_frame:
  "EnterFileDeclaration p c = Inr p1 \<Longrightarrow>
     itemFieldStack p1 = itemFieldStack p \<and>
     Specification.Fields (spec p1) = Specification.Fields (spec p)"
  "EnterImportItem p c' = Inr p1 \<Longrightarrow>
     itemFieldStack p1 = itemFieldStack p \<and>
     Specification.Fields (spec p1) = Specification.Fields (spec p)"
  by (auto simp: EnterFileDeclaration_def EnterImportItem_def split: sum.splits)

lemma removeStrA_frame:
  "EnterFileDeclaration_analyzer p c = Inr p1 \<Longrightarrow>
     itemFieldStack p1 = itemFieldStack p \<and>
     Specification.Fields (spec p1) = Specification.Fields (spec p)"
  "EnterImportItem_analyzer p c' = Inr p1 \<Longrightarrow>
     itemFieldStack p1 = itemFieldStack p \<and>
     Specification.Fields (spec p1) = Specification.Fields (spec p)"
  by (auto simp: EnterFileDeclaration_analyzer_def EnterImportItem_analyzer_def split: sum.splits)

lemma tracksPaths_EnterRule: "tracksPaths EnterRule"
  unfolding tracksPaths_def
proof (intro allI impI)
  fix p ctx p1
  assume e: "EnterRule p ctx = Inr p1"
  show "case ctx of
           SpecificationItem c \<Rightarrow>
             itemFieldStack p1 =
               fieldPath (Peek (itemFieldStack p)) (ParserRuleContext.GetText (FieldName c)) #
               itemFieldStack p \<and>
             map Field (Specification.Fields (spec p1)) =
               map Field (Specification.Fields (spec p)) @
               [fieldPath (Peek (itemFieldStack p)) (ParserRuleContext.GetText (FieldName c))]
         | _ \<Rightarrow>
             itemFieldStack p1 = itemFieldStack p \<and>
             map Field (Specification.Fields (spec p1)) =
               map Field (Specification.Fields (spec p))"
  proof (cases ctx)
    case (FileDeclaration c)
    with e removeStr_frame(1) [of p c p1] show ?thesis by (simp add: EnterRule_def)
  next
    case (ImportItem c)
    with e removeStr_frame(2) [of p c p1] show ?thesis by (simp add: EnterRule_def)
  next
    case (SpecificationItem c)
    with e have "EnterSpecificationItem p c = Inr p1" by (simp add: EnterRule_def)
    from EnterSpecificationItem_result [OF this] SpecificationItem show ?thesis by auto
  next
    case OtherContext
    with e show ?thesis by (simp add: EnterRule_def)
  qed
qed

lemma tracksPaths_EnterRule_analyzer: "tracksPaths EnterRule_analyzer"
  unfolding tracksPaths_def
proof (intro allI impI)
  fix p ctx p1
  assume e: "EnterRule_analyzer p ctx = Inr p1"
  show "case ctx of
           SpecificationItem c \<Rightarrow>
             itemFieldStack p1 =
               fieldPath (Peek (itemFieldStack p)) (ParserRuleContext.GetText (FieldName c)) #
               itemFieldStack p \<and>
             map Field (Specification.Fields (spec p1)) =
               map Field (Specification.Fields (spec p)) @
               [fieldPath (Peek (itemFieldStack p)) (ParserRuleContext.GetText (FieldName c))]
         | _ \<Rightarrow>
             itemFieldStack p1 = itemFieldStack p \<and>
             map Field (Specification.Fields (spec p1)) =
               map Field (Specification.Fields (spec p))"
  proof (cases ctx)
    case (FileDeclaration c)
    with e removeStrA_frame(1) [of p c p1] show ?thesis by (simp add: EnterRule_analyzer_def)
  next
    case (ImportItem c)
    with e removeStrA_frame(2) [of p c p1] show ?thesis by (simp add: EnterRule_analyzer_def)
  next
    case (SpecificationItem c)
    with e have "EnterSpecificationItem_analyzer p c = Inr p1" by (simp add: EnterRule_analyzer_def)
    from EnterSpecificationItem_analyzer_result [OF this] SpecificationItem show ?thesis by auto
  next
    case OtherContext
    with e show ?thesis by (simp add: EnterRule_analyzer_def)
  qed
qed

lemma Parse_cases:
  assumes "Parse p reports tree = Inr ((s, e), p')"
  shows "(s = None \<and> (\<exists>msg. e = Some (Errorf msg)) \<and> p' = p \<and> reports \<noteq> []) \<or>
         (e = None \<and> s = Some (spec p') \<and> reports = [] \<and>
          Walk EnterRule ExitRule (p\<lparr>spec := emptySpecification, errs := [], itemFieldStack := []\<rparr>) tree = Inr p')"
proof (cases reports rule: rev_cases)
  case Nil
  with assms show ?thesis by (auto simp: Parse_def split: sum.splits)
next
  case (snoc rs r)
  then have "errors (foldl SyntaxError \<lparr>errors = []\<rparr> reports) \<noteq> []"
    by (simp add: SyntaxError_def split: prod.splits)
  with assms snoc show ?thesis by (auto simp: Parse_def Let_def)
qed

lemma Parse_analyzer_cases:
  assumes "Parse_analyzer p reports tree = Inr ((s, e), p')"
  shows "(s = None \<and> (\<exists>msg. e = Some (Errorf msg)) \<and> p' = p \<and> reports \<noteq> []) \<or>
         (e = None \<and> s = Some (spec p') \<and> reports = [] \<and>
          Walk EnterRule_analyzer ExitRule (p\<lparr>spec := emptySpecification, errs := [], itemFieldStack := [[]]\<rparr>) tree = Inr p')"
proof (cases reports rule: rev_cases)
  case Nil
  with assms show ?thesis by (auto simp: Parse_analyzer_def Push_def split: sum.splits)
next
  case (snoc rs r)
  then have "errors (foldl SyntaxError \<lparr>errors = []\<rparr> reports) \<noteq> []"
    by (simp add: SyntaxError_def split: prod.splits)
  with assms snoc show ?thesis by (auto simp: Parse_analyzer_def Push_def Let_def)
qed

lemma Parse_never_both_nil:
  "Parse p reports tree = Inr ((s, e), p') \<Longrightarrow> (s = None) \<noteq> (e = None)"
  "Parse_analyzer p reports tree = Inr ((s, e), p') \<Longrightarrow> (s = None) \<noteq> (e = None)"
  using Parse_cases [of p reports tree s e p'] Parse_analyzer_cases [of p reports tree s e p']
  by auto

subsection \<open>Evaluation on the example inputs\<close>

lemmas eval_defs = EnterSpecificationItem_def EnterSpecificationItem_analyzer_def
  metadataItem_def metadataItem_analyzer_def Len_def Peek_def Push_def Pop_def
  newFieldSpec_def ruleLocation_def zeroLocation_def tokenAt_def oneToken_def
  NewSpecParser_def emptySpecification_def condenseListExpressions_def condenseLoop.simps
  HasPrefix_def HasSuffix_def slice_def removeStrQuotesAndCleanSpaces_def
  removeStrQuotesAndCleanSpaces_analyzer_def
  EnterRule_def EnterRule_analyzer_def ExitRule_def ExitSpecificationItem_def
  Parse_def Parse_analyzer_def storedPaths_def appendCheck_def Let_def reSpace_def

lemma trim_x [simp]: "TrimSpace ''x'' = ''x''" "TrimSpace ''y'' = ''y''"
  by (simp_all add: TrimSpace_def TrimLeft.simps TrimRight.simps leadingSpace_def trailingSpace_def
      unicodeSpaces_def HasPrefix_def HasSuffix_def)

lemma rs_x [simp]: "ReplaceAllSpaces ''x'' = ''x''" "ReplaceAllSpaces ''y'' = ''y''"
  by (simp_all add: reSpace_def)

subsection \<open>The claims on the specification parser\<close>

text \<open>
  C1, at an input where the code departs from it: a specification whose only field \<open>a\<close>
  declares no type. Both parsers return the specification with a \<open>nil\<close> error, while the
  error \<open>missing type metadata\<close> stays behind in the receiver's \<open>errs\<close>, which \<open>Parse\<close> never
  returns.
\<close>

theorem C1_errors_discarded:
  "(case Parse NewSpecParser [] (RuleNode (SpecificationItem untypedField) []) of
      Inr ((Some s, None), p') \<Rightarrow>
        errs p' = [Errorf ''missing type metadata for field a'']
    | _ \<Rightarrow> False)
   \<and> (case Parse_analyzer NewSpecParser [] (RuleNode (SpecificationItem untypedField) []) of
      Inr ((Some s, None), p') \<Rightarrow>
        errs p' = [Errorf ''missing type metadata for field .a'']
    | _ \<Rightarrow> False)"
  by (simp add: eval_defs untypedField_def)

text \<open>
  C2, at an input where the code departs from it: a field with a type and two notes, \<open>x\<close>
  and then \<open>y\<close>. Both listeners accumulate no error and store the second notes, \<open>y\<close>: the
  notes case never sets \<open>foundNotes\<close> (\<open>foundNotes_unchanged\<close>), while for type, optional and
  default a repeated kind appends one error and leaves the stored value alone
  (\<open>metadataItem_first\<close>, \<open>metadataItem_duplicate\<close>).
\<close>

theorem C2_duplicate_notes:
  "(case EnterSpecificationItem NewSpecParser twoNotes of
      Inr p' \<Rightarrow> errs p' = [] \<and> map Notes (Specification.Fields (spec p')) = [''y'']
    | Inl e \<Rightarrow> False)
   \<and> (case EnterSpecificationItem_analyzer (NewSpecParser\<lparr>itemFieldStack := [[]]\<rparr>) twoNotes of
      Inr p' \<Rightarrow> errs p' = [] \<and> map Notes (Specification.Fields (spec p')) = [''y'']
    | Inl e \<Rightarrow> False)"
  by (simp add: eval_defs twoNotes_def)

text \<open>
  C3 as stated fails in the parser of \<open>analyzer/spec/spec_parser.go\<close>: the top-level field
  \<open>a\<close> is stored under the path \<open>.a\<close>, with a leading separator.
\<close>

theorem C3_counterexample:
  "storedPaths (Parse_analyzer NewSpecParser [] (RuleNode (SpecificationItem typedField) [])) =
     Some [''.a'']"
  by (simp add: eval_defs typedField_def)

text \<open>
  C3, amended. Whenever \<open>Parse\<close> returns a specification, the paths of its fields, in
  order, are the dotted paths of the declarations of the parse tree: a nested field's
  path is its parent's stored path, one separator and its local name. A top-level
  field's path is its local name in the parser that starts from an empty stack, and a
  separator followed by its local name in the parser of \<open>analyzer/spec/spec_parser.go\<close>,
  which starts from the empty root path.
\<close>

theorem C3_dotted_paths:
  "(Parse p reports tree = Inr ((Some s, e), p') \<longrightarrow>
      map Field (Specification.Fields s) = dottedPaths None tree)
   \<and> (Parse_analyzer p reports tree = Inr ((Some s, e), p') \<longrightarrow>
      map Field (Specification.Fields s) = dottedPaths (Some []) tree)"
proof (intro conjI impI)
  assume a: "Parse p reports tree = Inr ((Some s, e), p')"
  let ?p1 = "p\<lparr>spec := emptySpecification, errs := [], itemFieldStack := []\<rparr>"
  from Parse_cases [OF a] have s: "s = spec p'" and w: "Walk EnterRule ExitRule ?p1 tree = Inr p'"
    by auto
  from Walk_paths(1) [OF w tracksPaths_EnterRule refl] s
  show "map Field (Specification.Fields s) = dottedPaths None tree"
    by (simp add: emptySpecification_def Peek_def)
next
  assume a: "Parse_analyzer p reports tree = Inr ((Some s, e), p')"
  let ?p1 = "p\<lparr>spec := emptySpecification, errs := [], itemFieldStack := [[]]\<rparr>"
  from Parse_analyzer_cases [OF a] have s: "s = spec p'"
    and w: "Walk EnterRule_analyzer ExitRule ?p1 tree = Inr p'"
    by auto
  from Walk_paths(1) [OF w tracksPaths_EnterRule_analyzer refl] s
  show "map Field (Specification.Fields s) = dottedPaths (Some []) tree"
    by (simp add: emptySpecification_def Peek_def)
qed

theorem C3_witness:
  "storedPaths (Parse NewSpecParser [] nestedTree) = Some [''a'', ''a.b'']
   \<and> dottedPaths None nestedTree = [''a'', ''a.b'']
   \<and> storedPaths (Parse_analyzer NewSpecParser [] nestedTree) = Some [''.a'', ''.a.b'']
   \<and> dottedPaths (Some []) nestedTree = [''.a'', ''.a.b'']"
proof -
  have a: "\<exists>s e p'. Parse NewSpecParser [] nestedTree = Inr ((Some s, e), p')"
    by (simp add: eval_defs nestedTree_def typedField_def nestedField_def)
  have b: "\<exists>s e p'. Parse_analyzer NewSpecParser [] nestedTree = Inr ((Some s, e), p')"
    by (simp add: eval_defs nestedTree_def typedField_def nestedField_def)
  have c: "dottedPaths None nestedTree = [''a'', ''a.b'']"
    "dottedPaths (Some []) nestedTree = [''.a'', ''.a.b'']"
    by (simp_all add: nestedTree_def typedField_def nestedField_def fieldPath_def oneToken_def)
  from a obtain s e p' where "Parse NewSpecParser [] nestedTree = Inr ((Some s, e), p')" by blast
  with C3_dotted_paths [of NewSpecParser "[]" nestedTree s e p'] c
  have 1: "storedPaths (Parse NewSpecParser [] nestedTree) = Some [''a'', ''a.b'']"
    by (simp add: storedPaths_def)
  from b obtain s e p' where "Parse_analyzer NewSpecParser [] nestedTree = Inr ((Some s, e), p')"
    by blast
  with C3_dotted_paths [of NewSpecParser "[]" nestedTree s e p'] c
  have 2: "storedPaths (Parse_analyzer NewSpecParser [] nestedTree) = Some [''.a'', ''.a.b'']"
    by (simp add: storedPaths_def)
  from 1 2 c show ?thesis by simp
qed

text \<open>
  C4 as stated fails in the parser of \<open>analyzer/spec/spec_parser.go\<close>, which has no
  normalisation: for a field of type \<open>list<list<int>>\<close> it stores the descriptor as
  written, and normalising the stored \<open>FieldType\<close> changes it to \<open>list:list:int\<close>.
\<close>

theorem C4_counterexample:
  "(case Parse_analyzer NewSpecParser [] (RuleNode (SpecificationItem listField) []) of
      Inr ((Some s, None), p') \<Rightarrow>
        map FieldType (Specification.Fields s) = [''list<list<int>>''] \<and>
        condenseListExpressions (FieldType (last (Specification.Fields s))) =
          Inr ''list:list:int''
    | _ \<Rightarrow> False)"
  by (simp add: eval_defs listField_def)

text \<open>
  C4, amended. \<open>list<list<int>>\<close> normalises to \<open>list:list:int\<close>, \<open>int\<close> normalises to
  itself; for every descriptor text the normalisation returns (it never panics on its
  slice expression) a descriptor that normalising again leaves unchanged; the \<open>FieldType\<close>
  that the listener with the normalisation stores for a field is such a descriptor,
  namely the normalisation of the descriptor the field declares; and the listener of
  \<open>analyzer/spec/spec_parser.go\<close> stores the declared descriptor as written.
\<close>

theorem C4_condense_idempotent:
  "condenseListExpressions ''list<list<int>>'' = Inr ''list:list:int''
   \<and> condenseListExpressions ''int'' = Inr ''int''
   \<and> (\<forall>typeStr. \<exists>r. condenseListExpressions typeStr = Inr r
                     \<and> condenseListExpressions r = Inr r)
   \<and> (\<forall>p ctx p'. EnterSpecificationItem p ctx = Inr p' \<longrightarrow>
         condenseListExpressions (FieldType (last (Specification.Fields (spec p')))) =
           Inr (FieldType (last (Specification.Fields (spec p')))))
   \<and> (\<forall>p ctx p'. EnterSpecificationItem p ctx = Inr p' \<longrightarrow>
         condenseListExpressions (firstTypeText (AllMetadataItem ctx)) =
           Inr (FieldType (last (Specification.Fields (spec p')))))
   \<and> (\<forall>p ctx p'. EnterSpecificationItem_analyzer p ctx = Inr p' \<longrightarrow>
         FieldType (last (Specification.Fields (spec p'))) =
           firstTypeText (AllMetadataItem ctx))"
proof -
  have a: "condenseListExpressions ''list<list<int>>'' = Inr ''list:list:int''"
    by (simp add: condenseListExpressions_def condenseLoop.simps HasPrefix_def HasSuffix_def
        slice_def)
  have b: "condenseListExpressions ''int'' = Inr ''int''"
    by (simp add: condenseListExpressions_def condenseLoop.simps HasPrefix_def HasSuffix_def
        slice_def)
  from a b condenseListExpressions_fixpoint EnterSpecificationItem_FieldType
    EnterSpecificationItem_stores_normalised EnterSpecificationItem_analyzer_FieldType
  show ?thesis by blast
qed

theorem C4_witness:
  "(\<exists>p'. EnterSpecificationItem NewSpecParser listField = Inr p' \<and>
         firstTypeText (AllMetadataItem listField) = ''list<list<int>>'' \<and>
         FieldType (last (Specification.Fields (spec p'))) = ''list:list:int'')
   \<and> condenseListExpressions ''list:list:int'' = Inr ''list:list:int''
   \<and> (\<exists>p'. EnterSpecificationItem_analyzer (NewSpecParser\<lparr>itemFieldStack := [[]]\<rparr>)
              listField = Inr p' \<and>
         FieldType (last (Specification.Fields (spec p'))) = ''list<list<int>>'')"
proof -
  have t: "firstTypeText (AllMetadataItem listField) = ''list<list<int>>''"
    by (simp add: listField_def oneToken_def)
  obtain p' where p': "EnterSpecificationItem NewSpecParser listField = Inr p'"
    by (simp add: eval_defs listField_def)
  obtain q' where q': "EnterSpecificationItem_analyzer (NewSpecParser\<lparr>itemFieldStack := [[]]\<rparr>)
      listField = Inr q'"
    by (simp add: eval_defs listField_def)
  have n: "condenseListExpressions ''list<list<int>>'' = Inr ''list:list:int''"
    and fp: "condenseListExpressions (FieldType (last (Specification.Fields (spec p')))) =
          Inr (FieldType (last (Specification.Fields (spec p'))))"
    and st: "condenseListExpressions (firstTypeText (AllMetadataItem listField)) =
          Inr (FieldType (last (Specification.Fields (spec p'))))"
    and raw: "FieldType (last (Specification.Fields (spec q'))) =
          firstTypeText (AllMetadataItem listField)"
    using C4_condense_idempotent p' q' by blast+
  from n st t have f: "FieldType (last (Specification.Fields (spec p'))) = ''list:list:int''"
    by simp
  with fp have "condenseListExpressions ''list:list:int'' = Inr ''list:list:int''" by simp
  with p' q' t f raw show ?thesis by auto
qed

text \<open>
  C5. For every field declaration that either listener enters without a panic: when no
  metadata item declares the type, the error \<open>missing type metadata\<close>, naming the stored
  path of the field, is the last error accumulated; and when the type is declared and no
  kind is declared twice, no error is accumulated, whichever of optional, default and
  notes are omitted.
\<close>

theorem C5_missing_type:
  "(EnterSpecificationItem p ctx = Inr p' \<longrightarrow>
      (KType \<notin> kindOf ` set (AllMetadataItem ctx) \<longrightarrow>
         (\<exists>es. errs p' = errs p @ es @
            [Errorf (''missing type metadata for field '' @
               Field (last (Specification.Fields (spec p'))))]))
      \<and> (KType \<in> kindOf ` set (AllMetadataItem ctx) \<and>
           distinct (map kindOf (AllMetadataItem ctx)) \<longrightarrow> errs p' = errs p))
   \<and> (EnterSpecificationItem_analyzer p ctx = Inr p' \<longrightarrow>
      (KType \<notin> kindOf ` set (AllMetadataItem ctx) \<longrightarrow>
         (\<exists>es. errs p' = errs p @ es @
            [Errorf (''missing type metadata for field '' @
               Field (last (Specification.Fields (spec p'))))]))
      \<and> (KType \<in> kindOf ` set (AllMetadataItem ctx) \<and>
           distinct (map kindOf (AllMetadataItem ctx)) \<longrightarrow> errs p' = errs p))"
proof (intro conjI impI)
  assume a: "EnterSpecificationItem p ctx = Inr p'"
    and n: "KType \<notin> kindOf ` set (AllMetadataItem ctx)"
  from EnterSpecificationItem_result [OF a] n
  show "\<exists>es. errs p' = errs p @ es @
            [Errorf (''missing type metadata for field '' @
               Field (last (Specification.Fields (spec p'))))]"
    by auto
next
  assume a: "EnterSpecificationItem p ctx = Inr p'"
    and n: "KType \<in> kindOf ` set (AllMetadataItem ctx) \<and>
           distinct (map kindOf (AllMetadataItem ctx))"
  from EnterSpecificationItem_result [OF a] n show "errs p' = errs p" by auto
next
  assume a: "EnterSpecificationItem_analyzer p ctx = Inr p'"
    and n: "KType \<notin> kindOf ` set (AllMetadataItem ctx)"
  from EnterSpecificationItem_analyzer_result [OF a] n
  show "\<exists>es. errs p' = errs p @ es @
            [Errorf (''missing type metadata for field '' @
               Field (last (Specification.Fields (spec p'))))]"
    by auto
next
  assume a: "EnterSpecificationItem_analyzer p ctx = Inr p'"
    and n: "KType \<in> kindOf ` set (AllMetadataItem ctx) \<and>
           distinct (map kindOf (AllMetadataItem ctx))"
  from EnterSpecificationItem_analyzer_result [OF a] n show "errs p' = errs p" by auto
qed

theorem C5_witness:
  "(\<exists>p'. EnterSpecificationItem NewSpecParser untypedField = Inr p' \<and>
         KType \<notin> kindOf ` set (AllMetadataItem untypedField) \<and>
         errs p' = [Errorf ''missing type metadata for field a''])
   \<and> (\<exists>p'. EnterSpecificationItem NewSpecParser typedField = Inr p' \<and>
         KType \<in> kindOf ` set (AllMetadataItem typedField) \<and>
         distinct (map kindOf (AllMetadataItem typedField)) \<and> errs p' = [])
   \<and> (\<exists>p'. EnterSpecificationItem_analyzer (NewSpecParser\<lparr>itemFieldStack := [[]]\<rparr>)
              untypedField = Inr p' \<and>
         errs p' = [Errorf ''missing type metadata for field .a''])
   \<and> (\<exists>p'. EnterSpecificationItem_analyzer (NewSpecParser\<lparr>itemFieldStack := [[]]\<rparr>)
              typedField = Inr p' \<and> errs p' = [])"
proof -
  have k: "KType \<notin> kindOf ` set (AllMetadataItem untypedField)"
    "KType \<in> kindOf ` set (AllMetadataItem typedField)"
    "distinct (map kindOf (AllMetadataItem typedField))"
    by (simp_all add: untypedField_def typedField_def)
  obtain p1 where p1: "EnterSpecificationItem NewSpecParser untypedField = Inr p1"
    and e1: "errs p1 = [Errorf ''missing type metadata for field a'']"
    by (simp add: eval_defs untypedField_def)
  obtain p2 where p2: "EnterSpecificationItem NewSpecParser typedField = Inr p2"
    by (simp add: eval_defs typedField_def)
  obtain p3 where p3: "EnterSpecificationItem_analyzer (NewSpecParser\<lparr>itemFieldStack := [[]]\<rparr>)
      untypedField = Inr p3"
    and e3: "errs p3 = [Errorf ''missing type metadata for field .a'']"
    by (simp add: eval_defs untypedField_def)
  obtain p4 where p4: "EnterSpecificationItem_analyzer (NewSpecParser\<lparr>itemFieldStack := [[]]\<rparr>)
      typedField = Inr p4"
    by (simp add: eval_defs typedField_def)
  have e: "errs NewSpecParser = []" "errs (NewSpecParser\<lparr>itemFieldStack := [[]]\<rparr>) = []"
    by (simp_all add: NewSpecParser_def)
  from C5_missing_type [of NewSpecParser typedField p2] p2 k e have e2: "errs p2 = []"
    by simp
  from C5_missing_type [of "NewSpecParser\<lparr>itemFieldStack := [[]]\<rparr>" typedField p4] p4 k e
  have e4: "errs p4 = []"
    by simp
  from p1 e1 p2 e2 p3 e3 p4 e4 k show ?thesis by blast
qed

subsection \<open>The TOML tables\<close>

lemma getOrCreateLoop_frame:
  "getOrCreateLoop key p cur segs = (p', r) \<Longrightarrow>
   tomlParser.errs p' = tomlParser.errs p \<and> stack p' = stack p \<and>
   configFile p' = configFile p \<and> directlyDefined p' = directlyDefined p"
proof (induction key p cur segs arbitrary: p' r rule: getOrCreateLoop.induct)
  case (1 key p currentNode)
  then show ?case by simp
next
  case (2 key p currentNode segment rest)
  show ?case
  proof (cases currentNode)
    case None
    with "2.prems" show ?thesis by auto
  next
    case (Some cur)
    note cur = this
    show ?thesis
    proof (cases "NodeCell.Type (heap p cur)")
      case FObject
      note ty = this
      show ?thesis
      proof (cases "NodeCell.Value (heap p cur)")
        case (HObject objMap)
        note ob = this
        show ?thesis
        proof (cases "map_of objMap segment")
          case None
          obtain p1 new where nn: "newNode p (if rest = [] then nullNode else objectNode) = (p1, new)"
            by (cases "newNode p (if rest = [] then nullNode else objectNode)")
          with "2.prems" cur ty ob None
          have "getOrCreateLoop key
                  (p1\<lparr>heap := (heap p1)
                       (cur := (heap p1 cur)
                          \<lparr>Value := HObject (AList.update segment (Some new) objMap)\<rparr>)\<rparr>)
                  (Some new) rest = (p', r)"
            by simp
          with "2.IH" cur ty ob None nn [symmetric]
          have "tomlParser.errs p' = tomlParser.errs (p1\<lparr>heap := (heap p1)
                       (cur := (heap p1 cur)
                          \<lparr>Value := HObject (AList.update segment (Some new) objMap)\<rparr>)\<rparr>) \<and>
             stack p' = stack (p1\<lparr>heap := (heap p1)
                       (cur := (heap p1 cur)
                          \<lparr>Value := HObject (AList.update segment (Some new) objMap)\<rparr>)\<rparr>) \<and>
             configFile p' = configFile (p1\<lparr>heap := (heap p1)
                       (cur := (heap p1 cur)
                          \<lparr>Value := HObject (AList.update segment (Some new) objMap)\<rparr>)\<rparr>) \<and>
             directlyDefined p' = directlyDefined (p1\<lparr>heap := (heap p1)
                       (cur := (heap p1 cur)
                          \<lparr>Value := HObject (AList.update segment (Some new) objMap)\<rparr>)\<rparr>)"
            by blast
          with nn show ?thesis by (auto simp: newNode_def)
        next
          case (Some nextNode)
          with "2.prems" cur ty ob have "getOrCreateLoop key p nextNode rest = (p', r)" by simp
          with "2.IH" cur ty ob Some show ?thesis by blast
        qed
      qed (use "2.prems" cur ty in auto)
    next
      case FArray
      note ty = this
      show ?thesis
      proof (cases "NodeCell.Value (heap p cur)")
        case (HArray arrayValue)
        show ?thesis
        proof (cases "length arrayValue = 0")
          case True
          with "2.prems" cur ty HArray show ?thesis by auto
        next
          case False
          with "2.prems" cur ty HArray
          have "getOrCreateLoop key p (last arrayValue) rest = (p', r)" by simp
          with "2.IH" cur ty HArray False show ?thesis by blast
        qed
      qed (use "2.prems" cur ty in auto)
    qed (use "2.prems" cur in auto)
  qed
qed

lemma getOrCreateNode_frame:
  "getOrCreateNode p parent segs = (p', r) \<Longrightarrow>
   tomlParser.errs p' = tomlParser.errs p \<and> stack p' = stack p \<and>
   configFile p' = configFile p \<and> directlyDefined p' = directlyDefined p"
  unfolding getOrCreateNode_def by (rule getOrCreateLoop_frame)

lemma keyError_errs: "tomlParser.errs (keyError p msg key) \<noteq> tomlParser.errs p"
  by (simp add: keyError_def)

lemma EnterStandard_table_success:
  assumes "EnterStandard_table p ctx = Inr p'" "tomlParser.errs p' = tomlParser.errs p"
  shows "\<exists>fieldNode. stack p' = fieldNode # stack p \<and>
        NodeCell.NameLocation (heap p' fieldNode) = tomlLocation ctx \<and>
        NodeCell.ValueLocation (heap p' fieldNode) = NodeCell.NameLocation (heap p' fieldNode)"
proof -
  from assms(1) obtain fieldKey where k: "parseKey (Key ctx) = Inr fieldKey"
    by (auto simp: EnterStandard_table_def split: sum.splits)
  from assms k have nd: "\<not> directlyDefined p (String fieldKey)"
    by (auto simp: EnterStandard_table_def keyError_errs)
  define p1 where "p1 = p\<lparr>directlyDefined := (directlyDefined p)(String fieldKey := True)\<rparr>"
  obtain p2 r where g: "getOrCreateNode p1 (configFile p1) (segments fieldKey) = (p2, r)"
    by (cases "getOrCreateNode p1 (configFile p1) (segments fieldKey)")
  from getOrCreateNode_frame [OF g] have fr: "tomlParser.errs p2 = tomlParser.errs p"
    "stack p2 = stack p"
    by (simp_all add: p1_def)
  show ?thesis
  proof (cases r)
    case (Inl err)
    with assms k nd g fr show ?thesis
      by (auto simp: EnterStandard_table_def p1_def Let_def keyError_def split: if_splits)
  next
    case (Inr node)
    show ?thesis
    proof (cases node)
      case None
      with assms k nd g Inr show ?thesis
        by (auto simp: EnterStandard_table_def p1_def Let_def)
    next
      case (Some fieldNode)
      with assms(1) k nd g Inr fr show ?thesis
        by (auto simp: EnterStandard_table_def p1_def Let_def Push_def split: if_splits)
    qed
  qed
qed

lemma EnterArray_table_success:
  assumes "EnterArray_table p ctx = Inr p'" "tomlParser.errs p' = tomlParser.errs p"
  shows "\<exists>newInArrayTable. stack p' = newInArrayTable # stack p \<and>
        NodeCell.Type (heap p' newInArrayTable) = FObject \<and>
        NodeCell.NameLocation (heap p' newInArrayTable) = tomlLocation ctx \<and>
        NodeCell.ValueLocation (heap p' newInArrayTable) =
          NodeCell.NameLocation (heap p' newInArrayTable)"
proof -
  from assms(1) obtain fieldKey where k: "parseKey (Key ctx) = Inr fieldKey"
    by (auto simp: EnterArray_table_def split: sum.splits)
  from assms k have nd: "\<not> directlyDefined p (String fieldKey)"
    by (auto simp: EnterArray_table_def keyError_errs)
  obtain p2 r where g: "getOrCreateNode p (configFile p) (segments fieldKey) = (p2, r)"
    by (cases "getOrCreateNode p (configFile p) (segments fieldKey)")
  from getOrCreateNode_frame [OF g] have fr: "tomlParser.errs p2 = tomlParser.errs p"
    "stack p2 = stack p"
    by simp_all
  show ?thesis
  proof (cases r)
    case (Inl err)
    with assms k nd g fr show ?thesis
      by (auto simp: EnterArray_table_def Let_def keyError_def split: if_splits)
  next
    case (Inr node)
    show ?thesis
    proof (cases node)
      case None
      with assms k nd g Inr show ?thesis
        by (auto simp: EnterArray_table_def Let_def)
    next
      case (Some fieldNode)
      with assms(1) k nd g Inr fr show ?thesis
        by (auto simp: EnterArray_table_def Let_def Push_def newNode_def objectNode_def
            split: if_splits HVal.splits)
    qed
  qed
qed

lemma tomlLocation_not_zero:
  "Token.GetText (GetStop ctx) \<noteq> [] \<Longrightarrow> 0 \<le> GetColumn (GetStop ctx) \<Longrightarrow>
   tomlLocation ctx \<noteq> zeroLocation"
  by (cases "Token.GetText (GetStop ctx)") (auto simp: tomlLocation_def zeroLocation_def)

text \<open>
  C9. Whenever \<open>EnterStandard_table\<close> or \<open>EnterArray_table\<close> returns without recording an
  error, the node it pushes (the table's node, or the new entry of the array of tables)
  has the location of the header as its name location and its value location equal to
  its name location; and that location is not the zero location, for a header whose
  last token has a text and a column that is not negative.
\<close>

theorem C9_table_locations:
  "(EnterStandard_table p ctx = Inr p' \<and> tomlParser.errs p' = tomlParser.errs p \<longrightarrow>
      (\<exists>fieldNode. stack p' = fieldNode # stack p \<and>
         NodeCell.NameLocation (heap p' fieldNode) = tomlLocation ctx \<and>
         NodeCell.ValueLocation (heap p' fieldNode) =
           NodeCell.NameLocation (heap p' fieldNode)))
   \<and> (EnterArray_table p ctx = Inr p' \<and> tomlParser.errs p' = tomlParser.errs p \<longrightarrow>
      (\<exists>newInArrayTable. stack p' = newInArrayTable # stack p \<and>
         NodeCell.Type (heap p' newInArrayTable) = FObject \<and>
         NodeCell.NameLocation (heap p' newInArrayTable) = tomlLocation ctx \<and>
         NodeCell.ValueLocation (heap p' newInArrayTable) =
           NodeCell.NameLocation (heap p' newInArrayTable)))
   \<and> (Token.GetText (GetStop ctx) \<noteq> [] \<and> 0 \<le> GetColumn (GetStop ctx) \<longrightarrow>
        tomlLocation ctx \<noteq> zeroLocation)"
  using EnterStandard_table_success [of p ctx p'] EnterArray_table_success [of p ctx p']
    tomlLocation_not_zero [of ctx]
  by blast

lemmas toml_eval = EnterStandard_table_def EnterArray_table_def parseKey_def String_def
  getOrCreateNode_def newNode_def nullNode_def objectNode_def initWalk_def emptyStore_def
  tableA_def arrayTableA_def tokenAt_def tomlLocation_def zeroLocation_def Push_def Let_def
  isPanic_def keyError_def

theorem C9_witness:
  "(\<exists>p'. EnterStandard_table (initWalk emptyStore) tableA = Inr p' \<and>
         tomlParser.errs p' = tomlParser.errs (initWalk emptyStore) \<and>
         stack p' = [1, 0] \<and>
         NodeCell.NameLocation (heap p' 1) =
           \<lparr>Start = \<lparr>Line = 0, Column = 0\<rparr>, End = \<lparr>Line = 0, Column = 3\<rparr>\<rparr> \<and>
         NodeCell.ValueLocation (heap p' 1) =
           \<lparr>Start = \<lparr>Line = 0, Column = 0\<rparr>, End = \<lparr>Line = 0, Column = 3\<rparr>\<rparr>)
   \<and> (\<exists>p'. EnterArray_table (initWalk emptyStore) arrayTableA = Inr p' \<and>
         tomlParser.errs p' = tomlParser.errs (initWalk emptyStore) \<and>
         stack p' = [2, 0] \<and>
         NodeCell.Value (heap p' 1) = HArray [Some 2] \<and>
         NodeCell.NameLocation (heap p' 2) =
           \<lparr>Start = \<lparr>Line = 0, Column = 0\<rparr>, End = \<lparr>Line = 0, Column = 5\<rparr>\<rparr> \<and>
         NodeCell.ValueLocation (heap p' 2) =
           \<lparr>Start = \<lparr>Line = 0, Column = 0\<rparr>, End = \<lparr>Line = 0, Column = 5\<rparr>\<rparr>)"
proof -
  obtain p1 where p1: "EnterStandard_table (initWalk emptyStore) tableA = Inr p1"
    and e1: "tomlParser.errs p1 = tomlParser.errs (initWalk emptyStore)"
    and s1: "stack p1 = [1, 0]"
    and n1: "tomlLocation tableA =
           \<lparr>Start = \<lparr>Line = 0, Column = 0\<rparr>, End = \<lparr>Line = 0, Column = 3\<rparr>\<rparr>"
    by (simp add: toml_eval)
  obtain p2 where p2: "EnterArray_table (initWalk emptyStore) arrayTableA = Inr p2"
    and e2: "tomlParser.errs p2 = tomlParser.errs (initWalk emptyStore)"
    and s2: "stack p2 = [2, 0]"
    and v2: "NodeCell.Value (heap p2 1) = HArray [Some 2]"
    and n2: "tomlLocation arrayTableA =
           \<lparr>Start = \<lparr>Line = 0, Column = 0\<rparr>, End = \<lparr>Line = 0, Column = 5\<rparr>\<rparr>"
    by (simp add: toml_eval)
  from C9_table_locations [of "initWalk emptyStore" tableA p1] p1 e1 s1 n1
  have a: "NodeCell.NameLocation (heap p1 1) =
           \<lparr>Start = \<lparr>Line = 0, Column = 0\<rparr>, End = \<lparr>Line = 0, Column = 3\<rparr>\<rparr> \<and>
         NodeCell.ValueLocation (heap p1 1) =
           \<lparr>Start = \<lparr>Line = 0, Column = 0\<rparr>, End = \<lparr>Line = 0, Column = 3\<rparr>\<rparr>"
    by auto
  from C9_table_locations [of "initWalk emptyStore" arrayTableA p2] p2 e2 s2 n2
  have b: "NodeCell.NameLocation (heap p2 2) =
           \<lparr>Start = \<lparr>Line = 0, Column = 0\<rparr>, End = \<lparr>Line = 0, Column = 5\<rparr>\<rparr> \<and>
         NodeCell.ValueLocation (heap p2 2) =
           \<lparr>Start = \<lparr>Line = 0, Column = 0\<rparr>, End = \<lparr>Line = 0, Column = 5\<rparr>\<rparr>"
    by auto
  from p1 e1 s1 a p2 e2 s2 v2 b show ?thesis by blast
qed

end
